theory Spec2Isabelle
  imports Main
begin

section \<open>The database behind \<open>DbManager\<close>\<close>

text \<open>
  \<open>dbmanager.cpp\<close> keeps its whole state in one SQLite database, reached through the
  private member \<open>db\<close>. The three tables are those of \<open>createUserTable\<close> and
  \<open>createChatTables\<close>:
  \<^item> \<open>userinfo(username PRIMARY KEY, password)\<close>;
  \<^item> \<open>chats(chatid INTEGER PRIMARY KEY, owner NOT NULL, FOREIGN KEY(owner) references
    userinfo(username))\<close>;
  \<^item> \<open>chatusers(rowid INTEGER PRIMARY KEY, chatid, username NOT NULL, FOREIGN KEY(chatid)
    references chats(chatid), FOREIGN KEY(username) references userinfo(username))\<close>.

  A table is the list of its rows in the order a scan returns them, which for SQLite is
  ascending rowid, that is insertion order for \<open>chatusers\<close>. The C++ \<open>int\<close> of a
  chat id is \<open>int\<close> (no arithmetic is done on it).

  A \<open>QString\<close> that the program receives as an argument is a \<open>QString\<close> below: either
  the null string \<open>QString()\<close>, which Qt 4 and 5 bind to a statement as SQL NULL, or a
  string of characters, which is bound as text. NULL never satisfies \<open>column = (:x)\<close>, on
  either side. The columns \<open>username\<close> and \<open>password\<close> of \<open>userinfo\<close> can hold NULL
  (SQLite lets NULL into a primary key that is neither an INTEGER one nor declared
  \<open>NOT NULL\<close>, and takes each NULL for a new key); \<open>owner\<close> of \<open>chats\<close> and
  \<open>username\<close> of \<open>chatusers\<close> are \<open>NOT NULL\<close> and hold characters. A \<open>QString\<close>
  that the program reads back or builds is represented by its characters, the null one by
  the empty string: this is how Qt's \<open>==\<close>, \<open>!=\<close> and \<open>append\<close> take it.

  Two things are not decided by the program text and are therefore part of the state:
  \<^item> \<open>foreign_keys\<close>: whether the connection enforces the \<open>FOREIGN KEY\<close> clauses. SQLite
    enforces them only after \<open>PRAGMA foreign_keys = ON\<close>, which the program never issues;
  \<^item> \<open>faults\<close>: the outcomes the store has in stock for the coming statements, one entry
    per \<open>exec()\<close>, \<open>True\<close> meaning that the statement fails with a store error and
    changes nothing. An empty list is a store that reports no error of its own.
\<close>

datatype QString = Null | QStr string

definition content :: "QString \<Rightarrow> string" where
  "content s = (case s of Null \<Rightarrow> [] | QStr cs \<Rightarrow> cs)"

text \<open>\<open>column = (:bound)\<close> in a WHERE clause.\<close>

definition sql_equal :: "QString \<Rightarrow> QString \<Rightarrow> bool" where
  "sql_equal column bound = (column \<noteq> Null \<and> bound \<noteq> Null \<and> column = bound)"

record DbManager =
  userinfo :: "(QString \<times> QString) list"
  chats :: "(int \<times> string) list"
  chatusers :: "(int \<times> int \<times> string) list"
  foreign_keys :: bool
  faults :: "bool list"

text \<open>The names under which \<open>userinfo\<close> has a row that a query can find.\<close>

definition usernames :: "DbManager \<Rightarrow> QString set" where
  "usernames d = fst ` set (userinfo d) - {Null}"

definition chatids :: "DbManager \<Rightarrow> int set" where
  "chatids d = fst ` set (chats d)"

definition member_chatids :: "DbManager \<Rightarrow> int set" where
  "member_chatids d = (\<lambda>r. fst (snd r)) ` set (chatusers d)"

text \<open>\<open>QSqlQuery::exec()\<close>: the store's own verdict on the next statement.\<close>

definition exec :: "DbManager \<Rightarrow> bool \<times> DbManager" where
  "exec d = (case faults d of [] \<Rightarrow> (True, d) | b # bs \<Rightarrow> (\<not> b, d\<lparr>faults := bs\<rparr>))"

subsection \<open>Result sets: \<open>QSqlQuery\<close> after a SELECT\<close>

text \<open>
  The cursor of a \<open>QSqlQuery\<close>, as the Qt documentation describes it: after \<open>exec()\<close>
  it stands before the first record; \<open>next()\<close> from there retrieves the first record,
  from a record the following one, and from the last record it moves after the last record
  and returns false; after the last record \<open>next()\<close> changes nothing and returns false.
  \<open>at()\<close> is the record's index, or \<open>QSql::BeforeFirstRow = -1\<close>, or
  \<open>QSql::AfterLastRow = -2\<close>. \<open>seek(i)\<close> with a negative \<open>i\<close> positions the query
  before the first record and returns false. A copy of a \<open>QSqlQuery\<close> shares the cursor
  of the original, so the moves \<open>sqlSize\<close> makes on its by-value parameter are moves of
  the caller's query; the functions below return the moved query. On an empty result
  \<open>last()\<close> returns false; where it leaves the cursor is of no consequence, since
  \<open>sqlSize\<close> seeks right after it.
\<close>

datatype location = BeforeFirstRow | Row nat | AfterLastRow

record 'a QSqlQuery =
  qrows :: "'a list"
  qpos :: location

definition query_at :: "'a QSqlQuery \<Rightarrow> int" where
  "query_at q = (case qpos q of BeforeFirstRow \<Rightarrow> - 1 | Row n \<Rightarrow> int n | AfterLastRow \<Rightarrow> - 2)"

definition query_next :: "'a QSqlQuery \<Rightarrow> bool \<times> 'a QSqlQuery" where
  "query_next q =
     (case qpos q of
        BeforeFirstRow \<Rightarrow> if qrows q \<noteq> [] then (True, q\<lparr>qpos := Row 0\<rparr>) else (False, q)
      | Row n \<Rightarrow> if Suc n < length (qrows q) then (True, q\<lparr>qpos := Row (Suc n)\<rparr>)
                 else (False, q\<lparr>qpos := AfterLastRow\<rparr>)
      | AfterLastRow \<Rightarrow> (False, q))"

definition query_last :: "'a QSqlQuery \<Rightarrow> bool \<times> 'a QSqlQuery" where
  "query_last q =
     (if qrows q \<noteq> [] then (True, q\<lparr>qpos := Row (length (qrows q) - 1)\<rparr>) else (False, q))"

definition query_seek :: "int \<Rightarrow> 'a QSqlQuery \<Rightarrow> bool \<times> 'a QSqlQuery" where
  "query_seek i q =
     (if i < 0 then (False, q\<lparr>qpos := BeforeFirstRow\<rparr>)
      else if nat i < length (qrows q) then (True, q\<lparr>qpos := Row (nat i)\<rparr>)
      else (False, q\<lparr>qpos := AfterLastRow\<rparr>))"

text \<open>\<open>value(0)\<close>: the first column of the current record; invalid off the records.\<close>

definition query_value :: "'a QSqlQuery \<Rightarrow> 'a option" where
  "query_value q =
     (case qpos q of Row n \<Rightarrow> if n < length (qrows q) then Some (qrows q ! n) else None
      | _ \<Rightarrow> None)"

text \<open>\<open>QString::number\<close> on an \<open>int\<close>: the decimal numeral, with a minus sign.\<close>

fun digits :: "nat \<Rightarrow> string" where
  "digits n =
     (if n < 10 then [''0123456789'' ! n]
      else digits (n div 10) @ [''0123456789'' ! (n mod 10)])"

declare digits.simps [simp del]

definition number :: "int \<Rightarrow> string" where
  "number i = (if i < 0 then CHR ''-'' # digits (nat (- i)) else digits (nat i))"

text \<open>
  \<open>QVariant::toString()\<close> and \<open>QVariant::toInt()\<close>: an invalid variant gives the empty
  string and 0.
\<close>

definition toString_text :: "string option \<Rightarrow> string" where
  "toString_text v = (case v of None \<Rightarrow> [] | Some s \<Rightarrow> s)"

definition toString_int :: "int option \<Rightarrow> string" where
  "toString_int v = (case v of None \<Rightarrow> [] | Some i \<Rightarrow> number i)"

definition toInt :: "int option \<Rightarrow> int" where
  "toInt v = (case v of None \<Rightarrow> 0 | Some i \<Rightarrow> i)"

subsection \<open>The SQL statements of the program\<close>

text \<open>
  A SELECT that the store executes yields its rows with the cursor before the first one;
  a failed \<open>exec()\<close> yields no result set.
\<close>

definition run_select :: "'a list \<Rightarrow> DbManager \<Rightarrow> 'a QSqlQuery option \<times> DbManager" where
  "run_select rs d =
     (case exec d of
        (True, d') \<Rightarrow> (Some \<lparr>qrows = rs, qpos = BeforeFirstRow\<rparr>, d')
      | (False, d') \<Rightarrow> (None, d'))"

text \<open>\<open>SELECT username FROM userinfo WHERE username = (:inputusername)\<close>\<close>

definition select_username_userinfo ::
  "QString \<Rightarrow> DbManager \<Rightarrow> QString QSqlQuery option \<times> DbManager" where
  "select_username_userinfo u d =
     run_select (map fst (filter (\<lambda>r. sql_equal (fst r) u) (userinfo d))) d"

text \<open>\<open>SELECT * FROM userinfo WHERE username = (:username) AND password = (:password)\<close>\<close>

definition select_userinfo ::
  "QString \<Rightarrow> QString \<Rightarrow> DbManager \<Rightarrow> (QString \<times> QString) QSqlQuery option \<times> DbManager" where
  "select_userinfo u p d =
     run_select (filter (\<lambda>r. sql_equal (fst r) u \<and> sql_equal (snd r) p) (userinfo d)) d"

text \<open>\<open>SELECT * FROM chats WHERE chatid = (:chatID)\<close>\<close>

definition select_chats ::
  "int \<Rightarrow> DbManager \<Rightarrow> (int \<times> string) QSqlQuery option \<times> DbManager" where
  "select_chats c d = run_select (filter (\<lambda>r. fst r = c) (chats d)) d"

text \<open>\<open>SELECT owner FROM chats WHERE chatid = (:chatID)\<close>\<close>

definition select_owner_chats ::
  "int \<Rightarrow> DbManager \<Rightarrow> string QSqlQuery option \<times> DbManager" where
  "select_owner_chats c d = run_select (map snd (filter (\<lambda>r. fst r = c) (chats d))) d"

text \<open>\<open>SELECT chatid FROM chatusers WHERE username = (:inputusername)\<close>\<close>

definition select_chatid_chatusers ::
  "QString \<Rightarrow> DbManager \<Rightarrow> int QSqlQuery option \<times> DbManager" where
  "select_chatid_chatusers u d =
     run_select
       (map (\<lambda>r. fst (snd r)) (filter (\<lambda>r. sql_equal (QStr (snd (snd r))) u) (chatusers d))) d"

text \<open>\<open>SELECT username FROM chatusers WHERE chatid = (:chatID)\<close>\<close>

definition select_username_chatusers ::
  "int \<Rightarrow> DbManager \<Rightarrow> string QSqlQuery option \<times> DbManager" where
  "select_username_chatusers c d =
     run_select (map (\<lambda>r. snd (snd r)) (filter (\<lambda>r. fst (snd r) = c) (chatusers d))) d"

text \<open>
  \<open>INSERT INTO userinfo VALUES (:username, :password)\<close>: refused when the primary key
  is taken; a NULL key is never taken.
\<close>

definition insert_userinfo :: "QString \<Rightarrow> QString \<Rightarrow> DbManager \<Rightarrow> bool \<times> DbManager" where
  "insert_userinfo u p d =
     (case exec d of
        (False, d') \<Rightarrow> (False, d')
      | (True, d') \<Rightarrow>
          if u \<in> usernames d' then (False, d')
          else (True, d'\<lparr>userinfo := userinfo d' @ [(u, p)]\<rparr>))"

text \<open>
  \<open>INSERT INTO chats (chatid, owner) VALUES (:chatID, :username)\<close>: refused when the
  primary key is taken, when the owner is NULL, and, on a connection that enforces foreign
  keys, when the owner is no row of \<open>userinfo\<close>.
\<close>

definition insert_chats :: "int \<Rightarrow> QString \<Rightarrow> DbManager \<Rightarrow> bool \<times> DbManager" where
  "insert_chats c u d =
     (case exec d of
        (False, d') \<Rightarrow> (False, d')
      | (True, d') \<Rightarrow>
          if c \<in> chatids d' then (False, d')
          else if u = Null then (False, d')
          else if foreign_keys d' \<and> u \<notin> usernames d' then (False, d')
          else (True, d'\<lparr>chats := chats d' @ [(c, content u)]\<rparr>))"

text \<open>
  \<open>INSERT INTO chatusers (chatid, username) VALUES (:chatID, :username)\<close>: the store
  assigns the rowid, one more than the largest in use; the insert is refused when the
  username is NULL, and, on a connection that enforces foreign keys, when the chat or the
  user does not exist.
\<close>

definition new_rowid :: "(int \<times> int \<times> string) list \<Rightarrow> int" where
  "new_rowid rs = foldr max (map fst rs) 0 + 1"

definition insert_chatusers :: "int \<Rightarrow> QString \<Rightarrow> DbManager \<Rightarrow> bool \<times> DbManager" where
  "insert_chatusers c u d =
     (case exec d of
        (False, d') \<Rightarrow> (False, d')
      | (True, d') \<Rightarrow>
          if u = Null then (False, d')
          else if foreign_keys d' \<and> (c \<notin> chatids d' \<or> u \<notin> usernames d') then (False, d')
          else (True, d'\<lparr>chatusers :=
                          chatusers d' @ [(new_rowid (chatusers d'), c, content u)]\<rparr>))"

text \<open>
  \<open>DELETE FROM chats WHERE chatid = (:chatID)\<close>: succeeds also when no row matches; on
  a connection that enforces foreign keys it is refused while a \<open>chatusers\<close> row still
  refers to the chat.
\<close>

definition delete_chats :: "int \<Rightarrow> DbManager \<Rightarrow> bool \<times> DbManager" where
  "delete_chats c d =
     (case exec d of
        (False, d') \<Rightarrow> (False, d')
      | (True, d') \<Rightarrow>
          if foreign_keys d' \<and> c \<in> chatids d' \<and> c \<in> member_chatids d' then (False, d')
          else (True, d'\<lparr>chats := filter (\<lambda>r. fst r \<noteq> c) (chats d')\<rparr>))"

text \<open>\<open>DELETE FROM chatusers WHERE chatid = (:chatID)\<close>\<close>

definition delete_chatusers :: "int \<Rightarrow> DbManager \<Rightarrow> bool \<times> DbManager" where
  "delete_chatusers c d =
     (case exec d of
        (False, d') \<Rightarrow> (False, d')
      | (True, d') \<Rightarrow>
          (True, d'\<lparr>chatusers := filter (\<lambda>r. fst (snd r) \<noteq> c) (chatusers d')\<rparr>))"

section \<open>The functions of \<open>dbmanager.cpp\<close>\<close>

text \<open>
  Every function takes the database and returns its result together with the database it
  leaves behind. The \<open>qDebug()\<close> lines are not modelled. In \<open>removeChat\<close> and
  \<open>getUserChatInfo\<close> the argument is compared with Qt's \<open>==\<close> and \<open>!=\<close>, which
  compare the characters, so that the null string equals the empty one.
\<close>

definition sqlSize :: "'a QSqlQuery \<Rightarrow> int \<times> 'a QSqlQuery" where
  "sqlSize query =
     (let initialPos = query_at query;
          (b, query1) = query_last query;
          pos = (if b then query_at query1 + 1 else 0);
          (_, query2) = query_seek initialPos query1
      in (pos, query2))"

definition userExists :: "QString \<Rightarrow> DbManager \<Rightarrow> bool \<times> DbManager" where
  "userExists inputusername d =
     (case select_username_userinfo inputusername d of
        (Some query, d') \<Rightarrow> (if fst (sqlSize query) > 0 then (True, d') else (False, d'))
      | (None, d') \<Rightarrow> (False, d'))"

definition addUser :: "QString \<Rightarrow> QString \<Rightarrow> DbManager \<Rightarrow> bool \<times> DbManager" where
  "addUser username password d =
     (case userExists username d of
        (True, d1) \<Rightarrow> (False, d1)
      | (False, d1) \<Rightarrow>
          (case insert_userinfo username password d1 of
             (False, d2) \<Rightarrow> (False, d2)
           | (True, d2) \<Rightarrow> (True, d2)))"

definition checkUserInfo :: "QString \<Rightarrow> QString \<Rightarrow> DbManager \<Rightarrow> bool \<times> DbManager" where
  "checkUserInfo username password d =
     (case userExists username d of
        (False, d1) \<Rightarrow> (False, d1)
      | (True, d1) \<Rightarrow>
          (case select_userinfo username password d1 of
             (None, d2) \<Rightarrow> (False, d2)
           | (Some query, d2) \<Rightarrow>
               (if fst (sqlSize query) > 0 then (True, d2) else (False, d2))))"

definition chatExists :: "int \<Rightarrow> DbManager \<Rightarrow> bool \<times> DbManager" where
  "chatExists chatID d =
     (case select_chats chatID d of
        (Some query, d') \<Rightarrow> (if fst (sqlSize query) > 0 then (True, d') else (False, d'))
      | (None, d') \<Rightarrow> (False, d'))"

text \<open>
  The \<open>while (query.next())\<close> loops run over the cursor; they end because every
  successful \<open>next()\<close> leaves fewer records ahead.
\<close>

definition ahead :: "'a QSqlQuery \<Rightarrow> nat" where
  "ahead q =
     (case qpos q of
        BeforeFirstRow \<Rightarrow> Suc (length (qrows q))
      | Row n \<Rightarrow> length (qrows q) - n
      | AfterLastRow \<Rightarrow> 0)"

lemma query_next_ahead: "fst (query_next q) \<Longrightarrow> ahead (snd (query_next q)) < ahead q"
  by (auto simp: query_next_def ahead_def split: location.splits if_splits)

function getChatOwner_loop :: "string QSqlQuery \<Rightarrow> string \<Rightarrow> string" where
  "getChatOwner_loop query chatOwner =
     (if fst (query_next query)
      then getChatOwner_loop (snd (query_next query))
             (toString_text (query_value (snd (query_next query))))
      else chatOwner)"
  by pat_completeness auto
termination
  by (relation "measure (\<lambda>(q, _). ahead q)") (auto simp: query_next_ahead)

declare getChatOwner_loop.simps [simp del]

definition getChatOwner :: "int \<Rightarrow> DbManager \<Rightarrow> string \<times> DbManager" where
  "getChatOwner chatID d =
     (case chatExists chatID d of
        (False, d1) \<Rightarrow> ([], d1)
      | (True, d1) \<Rightarrow>
          (case select_owner_chats chatID d1 of
             (None, d2) \<Rightarrow> ([], d2)
           | (Some query, d2) \<Rightarrow>
               (case sqlSize query of
                  (n, query') \<Rightarrow>
                    if n > 0 then (getChatOwner_loop query' [], d2) else ([], d2))))"

text \<open>
  The loop of \<open>addChat\<close> over \<open>userVector\<close>, with the index \<open>i\<close> and the flag
  \<open>success\<close> as its variables.
\<close>

function addChat_loop ::
  "int \<Rightarrow> QString list \<Rightarrow> nat \<Rightarrow> bool \<Rightarrow> DbManager \<Rightarrow> bool \<times> DbManager" where
  "addChat_loop chatID userVector i success d =
     (if i < length userVector then
        (case insert_chatusers chatID (userVector ! i) d of
           (False, d') \<Rightarrow> addChat_loop chatID userVector (i + 1) success d'
         | (True, d') \<Rightarrow>
             addChat_loop chatID userVector (i + 1)
               (if i = length userVector - 1 then True else success) d')
      else (success, d))"
  by pat_completeness auto
termination
  by (relation "measure (\<lambda>(_, userVector, i, _, _). length userVector - i)") auto

declare addChat_loop.simps [simp del]

definition addChat ::
  "int \<Rightarrow> QString \<Rightarrow> QString list \<Rightarrow> DbManager \<Rightarrow> bool \<times> DbManager" where
  "addChat chatID username userVector d =
     (case chatExists chatID d of
        (True, d1) \<Rightarrow> (False, d1)
      | (False, d1) \<Rightarrow>
          (case userExists username d1 of
             (False, d2) \<Rightarrow> (False, d2)
           | (True, d2) \<Rightarrow>
               (case insert_chats chatID username d2 of
                  (False, d3) \<Rightarrow> (False, d3)
                | (True, d3) \<Rightarrow> addChat_loop chatID userVector 0 False d3)))"

definition removeChat :: "int \<Rightarrow> QString \<Rightarrow> DbManager \<Rightarrow> bool \<times> DbManager" where
  "removeChat chatID username d =
     (case chatExists chatID d of
        (False, d1) \<Rightarrow> (False, d1)
      | (True, d1) \<Rightarrow>
          (case getChatOwner chatID d1 of
             (chatOwner, d2) \<Rightarrow>
               if chatOwner = content username then
                 (case delete_chats chatID d2 of
                    (False, d3) \<Rightarrow> (False, d3)
                  | (True, d3) \<Rightarrow>
                      (case delete_chatusers chatID d3 of
                         (False, d4) \<Rightarrow> (False, d4)
                       | (True, d4) \<Rightarrow> (True, d4)))
               else (False, d2)))"

text \<open>
  The two nested \<open>while\<close> loops of \<open>doUsersChat\<close>. The inner loop moves the cursor of
  \<open>query2\<close> and hands it back to the outer loop as it left it.
\<close>

function doUsersChat_inner :: "int QSqlQuery \<Rightarrow> int QSqlQuery \<Rightarrow> bool \<times> int QSqlQuery" where
  "doUsersChat_inner query1 query2 =
     (if fst (query_next query2) then
        (if toString_int (query_value query1)
              = toString_int (query_value (snd (query_next query2)))
         then (True, snd (query_next query2))
         else doUsersChat_inner query1 (snd (query_next query2)))
      else (False, snd (query_next query2)))"
  by pat_completeness auto
termination
  by (relation "measure (\<lambda>(_, q). ahead q)") (auto simp: query_next_ahead)

declare doUsersChat_inner.simps [simp del]

function doUsersChat_outer :: "int QSqlQuery \<Rightarrow> int QSqlQuery \<Rightarrow> bool" where
  "doUsersChat_outer query1 query2 =
     (if fst (query_next query1) then
        (if fst (doUsersChat_inner (snd (query_next query1)) query2) then True
         else doUsersChat_outer (snd (query_next query1))
                (snd (doUsersChat_inner (snd (query_next query1)) query2)))
      else False)"
  by pat_completeness auto
termination
  by (relation "measure (\<lambda>(q, _). ahead q)") (auto simp: query_next_ahead)

declare doUsersChat_outer.simps [simp del]

definition doUsersChat :: "QString \<Rightarrow> QString \<Rightarrow> DbManager \<Rightarrow> bool \<times> DbManager" where
  "doUsersChat inputusername1 inputusername2 d =
     (case select_chatid_chatusers inputusername1 d of
        (None, d1) \<Rightarrow> (False, d1)
      | (Some query1, d1) \<Rightarrow>
          (case sqlSize query1 of
             (n1, query1') \<Rightarrow>
               if n1 > 0 then
                 (case select_chatid_chatusers inputusername2 d1 of
                    (None, d2) \<Rightarrow> (False, d2)
                  | (Some query2, d2) \<Rightarrow>
                      (case sqlSize query2 of
                         (n2, query2') \<Rightarrow>
                           if n2 > 0 then (doUsersChat_outer query1' query2', d2)
                           else (False, d2)))
               else (False, d1)))"

function getChatUsers_loop :: "string QSqlQuery \<Rightarrow> string list \<Rightarrow> string list" where
  "getChatUsers_loop query chatUsersVector =
     (if fst (query_next query)
      then getChatUsers_loop (snd (query_next query))
             (chatUsersVector @ [toString_text (query_value (snd (query_next query)))])
      else chatUsersVector)"
  by pat_completeness auto
termination
  by (relation "measure (\<lambda>(q, _). ahead q)") (auto simp: query_next_ahead)

declare getChatUsers_loop.simps [simp del]

definition getChatUsers :: "int \<Rightarrow> DbManager \<Rightarrow> string list \<times> DbManager" where
  "getChatUsers chatID d =
     (case chatExists chatID d of
        (False, d1) \<Rightarrow> ([], d1)
      | (True, d1) \<Rightarrow>
          (case select_username_chatusers chatID d1 of
             (None, d2) \<Rightarrow> ([], d2)
           | (Some query, d2) \<Rightarrow>
               (case sqlSize query of
                  (n, query') \<Rightarrow>
                    if n > 0 then (getChatUsers_loop query' [], d2) else ([], d2))))"

function getChatsUserIsIn_loop :: "int QSqlQuery \<Rightarrow> int list \<Rightarrow> int list" where
  "getChatsUserIsIn_loop query chatsUserIsInVector =
     (if fst (query_next query)
      then getChatsUserIsIn_loop (snd (query_next query))
             (chatsUserIsInVector @ [toInt (query_value (snd (query_next query)))])
      else chatsUserIsInVector)"
  by pat_completeness auto
termination
  by (relation "measure (\<lambda>(q, _). ahead q)") (auto simp: query_next_ahead)

declare getChatsUserIsIn_loop.simps [simp del]

definition getChatsUserIsIn :: "QString \<Rightarrow> DbManager \<Rightarrow> int list \<times> DbManager" where
  "getChatsUserIsIn inputusername d =
     (case userExists inputusername d of
        (False, d1) \<Rightarrow> ([], d1)
      | (True, d1) \<Rightarrow>
          (case select_chatid_chatusers inputusername d1 of
             (None, d2) \<Rightarrow> ([], d2)
           | (Some query, d2) \<Rightarrow>
               (case sqlSize query of
                  (n, query') \<Rightarrow>
                    if n > 0 then (getChatsUserIsIn_loop query' [], d2) else ([], d2))))"

text \<open>
  \<open>getUserChatInfo\<close>: the inner loop over the users of one chat carries the string
  \<open>temp\<close> and the \<open>flag\<close>; the outer loop over the chat ids calls \<open>getChatUsers\<close>
  once for each.
\<close>

fun getUserChatInfo_users ::
  "QString \<Rightarrow> int \<Rightarrow> string list \<Rightarrow> string \<times> int \<Rightarrow> string \<times> int" where
  "getUserChatInfo_users inputusername tempChatID [] (temp, flag) = (temp, flag)"
| "getUserChatInfo_users inputusername tempChatID (tempUser # users) (temp, flag) =
     (if tempUser \<noteq> content inputusername then
        getUserChatInfo_users inputusername tempChatID users
          ((if flag = 1 then temp @ '','' else temp) @ number tempChatID @ '','' @ tempUser, 1)
      else getUserChatInfo_users inputusername tempChatID users (temp, flag))"

fun getUserChatInfo_chats ::
  "QString \<Rightarrow> int list \<Rightarrow> string \<times> int \<Rightarrow> DbManager \<Rightarrow> (string \<times> int) \<times> DbManager" where
  "getUserChatInfo_chats inputusername [] acc d = (acc, d)"
| "getUserChatInfo_chats inputusername (tempChatID # chatIDs) acc d =
     (case getChatUsers tempChatID d of
        (users, d') \<Rightarrow>
          getUserChatInfo_chats inputusername chatIDs
            (getUserChatInfo_users inputusername tempChatID users acc) d')"

definition getUserChatInfo :: "QString \<Rightarrow> DbManager \<Rightarrow> string \<times> DbManager" where
  "getUserChatInfo inputusername d =
     (case getChatsUserIsIn inputusername d of
        (chatsUserIsIn, d1) \<Rightarrow>
          if chatsUserIsIn \<noteq> [] then
            (case getUserChatInfo_chats inputusername chatsUserIsIn ([], 0) d1 of
               ((temp, flag), d2) \<Rightarrow> (temp, d2))
          else ([], d1))"

section \<open>Notions and states used in the properties\<close>

text \<open>
  \<open>executes n d\<close>: the store reports no error of its own on the next \<open>n\<close> statements
  (a statement can still be refused for breaking a constraint).
\<close>

definition executes :: "nat \<Rightarrow> DbManager \<Rightarrow> bool" where
  "executes n d = (True \<notin> set (take n (faults d)))"

text \<open>The tables just created, on SQLite's default connection.\<close>

definition empty_db :: DbManager where
  "empty_db = \<lparr>userinfo = [], chats = [], chatusers = [], foreign_keys = False, faults = []\<rparr>"

text \<open>Two of the users of the demonstration in \<open>main.cpp\<close>.\<close>

definition demo_users :: DbManager where
  "demo_users =
     \<lparr>userinfo = [(QStr ''Bob'', QStr ''password1''), (QStr ''Fred'', QStr ''password2'')],
      chats = [], chatusers = [], foreign_keys = False, faults = []\<rparr>"

text \<open>
  \<open>attempt_members chatID us d\<close>: the database after the membership inserts for the users
  \<open>us\<close> have been attempted in order, whatever each one's outcome.
\<close>

definition attempt_members :: "int \<Rightarrow> QString list \<Rightarrow> DbManager \<Rightarrow> DbManager" where
  "attempt_members chatID us d = fold (\<lambda>u d'. snd (insert_chatusers chatID u d')) us d"

text \<open>
  A connection that enforces the foreign keys, with the user Bob; and the two demonstration
  users on a store that will fail the fifth statement it is given.
\<close>

definition strict_bob :: DbManager where
  "strict_bob =
     \<lparr>userinfo = [(QStr ''Bob'', QStr ''password1'')], chats = [], chatusers = [],
      foreign_keys = True, faults = []\<rparr>"

definition failing_fifth :: DbManager where
  "failing_fifth = demo_users\<lparr>faults := [False, False, False, False, True]\<rparr>"

text \<open>
  Chat 1 of the demonstration, owned by Bob, with Bob and Fred as members; and the same on
  a store that will fail the third statement it is given.
\<close>

definition demo_chat :: DbManager where
  "demo_chat =
     \<lparr>userinfo = [(QStr ''Bob'', QStr ''password1''), (QStr ''Fred'', QStr ''password2'')],
      chats = [(1, ''Bob'')],
      chatusers = [(1, 1, ''Bob''), (2, 1, ''Fred'')],
      foreign_keys = False, faults = []\<rparr>"

definition failing_third :: DbManager where
  "failing_third = demo_chat\<lparr>faults := [False, False, True]\<rparr>"

text \<open>
  Bob and Fred register; Bob creates chat 1 for himself alone, then chat 2 for himself and
  Fred.
\<close>

definition two_chats :: DbManager where
  "two_chats =
     snd (addChat 2 (QStr ''Bob'') [QStr ''Bob'', QStr ''Fred'']
       (snd (addChat 1 (QStr ''Bob'') [QStr ''Bob'']
         (snd (addUser (QStr ''Fred'') (QStr ''password2'')
           (snd (addUser (QStr ''Bob'') (QStr ''password1'') empty_db)))))))"

text \<open>The chat ids of a user's rows in \<open>chatusers\<close>, in table order.\<close>

definition chats_of :: "QString \<Rightarrow> DbManager \<Rightarrow> int list" where
  "chats_of u d =
     map (\<lambda>r. fst (snd r)) (filter (\<lambda>r. sql_equal (QStr (snd (snd r))) u) (chatusers d))"

text \<open>The usernames of a chat's rows in \<open>chatusers\<close>, in table order.\<close>

definition users_of :: "int \<Rightarrow> DbManager \<Rightarrow> string list" where
  "users_of c d = map (\<lambda>r. snd (snd r)) (filter (\<lambda>r. fst (snd r) = c) (chatusers d))"

text \<open>
  Referential integrity of \<open>chatusers\<close>, as the two \<open>FOREIGN KEY\<close> clauses of
  \<open>createChatTables\<close> declare it.
\<close>

definition memberships_refer :: "DbManager \<Rightarrow> bool" where
  "memberships_refer d =
     (\<forall>r \<in> set (chatusers d). fst (snd r) \<in> chatids d \<and> QStr (snd (snd r)) \<in> usernames d)"

text \<open>Bob registers and creates chat 1 with a member that was never registered.\<close>

definition ghost_member :: DbManager where
  "ghost_member =
     snd (addChat 1 (QStr ''Bob'') [QStr ''Ghost''] (snd (addUser (QStr ''Bob'') (QStr ''password1'') empty_db)))"

text \<open>
  The summary of \<open>getUserChatInfo\<close> in the words of its description: for each chat id in
  turn the members that \<open>getChatUsers\<close> returns for it, the user left out, each preceded
  by the chat id as a decimal numeral; the tokens joined with commas.
\<close>

definition chat_tokens :: "QString \<Rightarrow> int \<Rightarrow> string list \<Rightarrow> string list" where
  "chat_tokens u c users =
     concat (map (\<lambda>m. [number c, m]) (filter (\<lambda>m. m \<noteq> content u) users))"

fun summary_tokens :: "QString \<Rightarrow> int list \<Rightarrow> DbManager \<Rightarrow> string list \<times> DbManager" where
  "summary_tokens u [] d = ([], d)"
| "summary_tokens u (c # cs) d =
     (chat_tokens u c (fst (getChatUsers c d)) @ fst (summary_tokens u cs (snd (getChatUsers c d))),
      snd (summary_tokens u cs (snd (getChatUsers c d))))"

fun join_comma :: "string list \<Rightarrow> string" where
  "join_comma [] = []"
| "join_comma [t] = t"
| "join_comma (t # ts) = t @ '','' @ join_comma ts"

text \<open>
  Fred in chat 3 together with a user whose name is empty, and Fred in chat 3 together with
  a user whose name ends with a comma.
\<close>

definition nameless_member :: DbManager where
  "nameless_member =
     snd (addChat 3 (QStr ''Fred'') [QStr ''Fred'', QStr '''']
       (snd (addUser (QStr '''') (QStr ''password5'') (snd (addUser (QStr ''Fred'') (QStr ''password2'') empty_db)))))"

definition comma_member :: DbManager where
  "comma_member =
     snd (addChat 3 (QStr ''Fred'') [QStr ''Fred'', QStr ''Harry,'']
       (snd (addUser (QStr ''Harry,'') (QStr ''password3'') (snd (addUser (QStr ''Fred'') (QStr ''password2'') empty_db)))))"

text \<open>The state that \<open>main.cpp\<close> has built before it asks for the summaries.\<close>

definition demo_main :: DbManager where
  "demo_main =
     snd (addChat 2 (QStr ''Harry'') [QStr ''Fred'', QStr ''Harry'']
       (snd (addChat 1 (QStr ''Bob'') [QStr ''Bob'', QStr ''Fred'', QStr ''Harry'']
         (snd (addChat 1 (QStr ''Nick'') [QStr ''Bob'', QStr ''Fred'', QStr ''Harry'']
           (snd (addUser (QStr ''Rick'') (QStr ''password4'')
             (snd (addUser (QStr ''Harry'') (QStr ''password3'')
               (snd (addUser (QStr ''Fred'') (QStr ''password2'')
                 (snd (addUser (QStr ''Bob'') (QStr ''password1'') empty_db)))))))))))))"

section \<open>Properties of the program\<close>

subsection \<open>The store primitives\<close>

lemma exec_tables [simp]:
  "userinfo (snd (exec d)) = userinfo d"
  "chats (snd (exec d)) = chats d"
  "chatusers (snd (exec d)) = chatusers d"
  "foreign_keys (snd (exec d)) = foreign_keys d"
  by (simp_all add: exec_def split: list.split)

lemma exec_sets [simp]:
  "usernames (snd (exec d)) = usernames d"
  "chatids (snd (exec d)) = chatids d"
  "member_chatids (snd (exec d)) = member_chatids d"
  by (simp_all add: usernames_def chatids_def member_chatids_def)

lemma executes_0 [simp]: "executes 0 d"
  by (simp add: executes_def)

lemma executes_Suc: "executes (Suc n) d = (fst (exec d) \<and> executes n (snd (exec d)))"
  by (cases "faults d") (auto simp: executes_def exec_def)

lemma run_select_eq:
  "run_select rs d =
     (if fst (exec d) then Some \<lparr>qrows = rs, qpos = BeforeFirstRow\<rparr> else None, snd (exec d))"
  by (simp add: run_select_def split: prod.split bool.split)

lemma sqlSize_fresh:
  "sqlSize \<lparr>qrows = rs, qpos = BeforeFirstRow\<rparr>
     = (int (length rs), \<lparr>qrows = rs, qpos = BeforeFirstRow\<rparr>)"
  by (cases rs) (simp_all add: sqlSize_def query_at_def query_last_def query_seek_def Let_def)

lemma filter_fst_nonempty: "(filter (\<lambda>r. fst r = k) rs \<noteq> []) = (k \<in> fst ` set rs)"
  by (induction rs) auto

lemma filter_name_nonempty:
  "(filter (\<lambda>r. sql_equal (fst r) u) rs \<noteq> []) = (u \<in> fst ` set rs - {Null})"
  by (induction rs) (auto simp: sql_equal_def)

lemma filter_row_nonempty:
  "(filter (\<lambda>r. sql_equal (fst r) u \<and> sql_equal (snd r) p) rs \<noteq> [])
     = ((u, p) \<in> set rs \<and> u \<noteq> Null \<and> p \<noteq> Null)"
  by (induction rs) (auto simp: sql_equal_def)

lemma content_QStr [simp]: "content (QStr cs) = cs"
  by (simp add: content_def)

lemma content_Null [simp]: "content Null = []"
  by (simp add: content_def)

lemma Null_no_username [simp]: "Null \<notin> usernames d"
  by (simp add: usernames_def)

lemma QStr_content: "u \<noteq> Null \<Longrightarrow> QStr (content u) = u"
  by (cases u) simp_all

subsection \<open>Existence checks\<close>

lemma userExists_eq:
  "userExists u d = (fst (exec d) \<and> u \<in> usernames d, snd (exec d))"
proof -
  have "userExists u d
      = (fst (exec d) \<and> filter (\<lambda>r. sql_equal (fst r) u) (userinfo d) \<noteq> [], snd (exec d))"
    by (simp add: userExists_def select_username_userinfo_def run_select_eq sqlSize_fresh)
  then show ?thesis
    by (simp add: filter_name_nonempty usernames_def)
qed

lemma chatExists_eq:
  "chatExists c d = (fst (exec d) \<and> c \<in> chatids d, snd (exec d))"
  by (auto simp: chatExists_def select_chats_def run_select_eq sqlSize_fresh
      chatids_def filter_fst_nonempty[symmetric])

subsection \<open>Credentials\<close>

lemma select_userinfo_eq:
  "select_userinfo u p d =
     (if fst (exec d)
      then Some \<lparr>qrows = filter (\<lambda>r. sql_equal (fst r) u \<and> sql_equal (snd r) p) (userinfo d),
                 qpos = BeforeFirstRow\<rparr>
      else None, snd (exec d))"
  by (simp add: select_userinfo_def run_select_eq)

lemma checkUserInfo_eq:
  "fst (checkUserInfo u p d) =
     (fst (exec d) \<and> u \<in> usernames d \<and> fst (exec (snd (exec d))) \<and>
      (u, p) \<in> set (userinfo d) \<and> p \<noteq> Null)"
proof -
  have "fst (checkUserInfo u p d) =
     (fst (exec d) \<and> u \<in> usernames d \<and> fst (exec (snd (exec d))) \<and>
      filter (\<lambda>r. sql_equal (fst r) u \<and> sql_equal (snd r) p) (userinfo d) \<noteq> [])"
    by (auto simp: checkUserInfo_def userExists_eq select_userinfo_eq sqlSize_fresh
        bool.case_eq_if)
  then show ?thesis
    by (auto simp: filter_row_nonempty usernames_def)
qed

text \<open>A null username or a null password is never accepted.\<close>

lemma checkUserInfo_null:
  "\<not> fst (checkUserInfo Null p d)" "\<not> fst (checkUserInfo u Null d)"
  by (simp_all add: checkUserInfo_eq)



subsection \<open>Adding users\<close>

lemma insert_userinfo_eq:
  "insert_userinfo u p d =
     (if fst (exec d) \<and> u \<notin> usernames d
      then (True, (snd (exec d))\<lparr>userinfo := userinfo d @ [(u, p)]\<rparr>)
      else (False, snd (exec d)))"
  by (simp add: insert_userinfo_def case_prod_beta bool.case_eq_if)

lemma addUser_existing:
  assumes "u \<in> usernames d"
  shows "\<not> fst (addUser u p d)" and "userinfo (snd (addUser u p d)) = userinfo d"
    and "chats (snd (addUser u p d)) = chats d"
    and "chatusers (snd (addUser u p d)) = chatusers d"
  using assms
  by (simp_all add: addUser_def userExists_eq insert_userinfo_eq case_prod_beta bool.case_eq_if)

lemma addUser_succeeded:
  assumes "addUser u p d = (True, d1)"
  shows "u \<notin> usernames d" and "userinfo d1 = userinfo d @ [(u, p)]"
  using assms
  by (auto simp: addUser_def userExists_eq insert_userinfo_eq case_prod_beta bool.case_eq_if
      split: if_splits)

lemma userExists_executes:
  "executes 1 d \<Longrightarrow> fst (userExists u d) = (u \<in> usernames d)"
  by (simp add: userExists_eq executes_Suc)

text \<open>
  For a username that is not null: after an \<open>addUser u p\<close> that returned true, the row
  \<open>(u, p)\<close> is in \<open>userinfo\<close>; a second \<open>addUser u p2\<close> returns false and leaves
  \<open>userinfo\<close> as it was; and \<open>userExists u\<close> answers true after the first call and after
  the second, whenever the store executes its SELECT.
\<close>

lemma addUser_twice_named:
  assumes "addUser u p d = (True, d1)" and "u \<noteq> Null"
  shows "\<not> fst (addUser u p2 d1) \<and>
         (u, p) \<in> set (userinfo d1) \<and>
         userinfo (snd (addUser u p2 d1)) = userinfo d1 \<and>
         (executes 1 d1 \<longrightarrow> fst (userExists u d1)) \<and>
         (executes 1 (snd (addUser u p2 d1)) \<longrightarrow> fst (userExists u (snd (addUser u p2 d1))))"
proof -
  from assms(1) have row: "userinfo d1 = userinfo d @ [(u, p)]"
    by (rule addUser_succeeded)
  then have u: "u \<in> usernames d1"
    using assms(2) by (simp add: usernames_def)
  have same: "userinfo (snd (addUser u p2 d1)) = userinfo d1"
    using u by (rule addUser_existing)
  then have u': "u \<in> usernames (snd (addUser u p2 d1))"
    using u by (simp add: usernames_def)
  show ?thesis
    using row u u' same addUser_existing(1)[OF u, of p2]
    by (simp add: userExists_executes)
qed

lemma addUser_twice_named_example:
  "addUser (QStr ''Harry'') (QStr ''password3'') demo_users
     = (True, demo_users\<lparr>userinfo := userinfo demo_users @ [(QStr ''Harry'', QStr ''password3'')]\<rparr>) \<and>
   \<not> fst (addUser (QStr ''Harry'') (QStr ''other'')
            (demo_users\<lparr>userinfo := userinfo demo_users @ [(QStr ''Harry'', QStr ''password3'')]\<rparr>)) \<and>
   fst (userExists (QStr ''Harry'')
          (demo_users\<lparr>userinfo := userinfo demo_users @ [(QStr ''Harry'', QStr ''password3'')]\<rparr>))"
proof -
  have first: "addUser (QStr ''Harry'') (QStr ''password3'') demo_users
     = (True, demo_users\<lparr>userinfo := userinfo demo_users @ [(QStr ''Harry'', QStr ''password3'')]\<rparr>)"
    by (simp add: addUser_def userExists_eq insert_userinfo_eq exec_def demo_users_def
        usernames_def)
  have named: "QStr ''Harry'' \<noteq> Null"
    by simp
  show ?thesis
    using first addUser_twice_named [OF first named, of "QStr ''other''"]
    by (simp add: executes_def demo_users_def)
qed

text \<open>
  With the null username every \<open>addUser\<close> succeeds, on a store that executes the two
  statements, and \<open>userExists\<close> never finds the rows.
\<close>

lemma addUser_null:
  "executes 2 d \<Longrightarrow>
   addUser Null p d
     = (True, (snd (exec (snd (exec d))))\<lparr>userinfo := userinfo d @ [(Null, p)]\<rparr>)"
  by (simp add: addUser_def userExists_eq insert_userinfo_eq executes_Suc eval_nat_numeral)

lemma userExists_null: "\<not> fst (userExists Null d)"
  by (simp add: userExists_eq)

text \<open>
  C9 asks that, for every username, a second \<open>addUser\<close> after a successful one return
  false, and that \<open>userExists\<close> be true after the first call and after the second. For
  the null \<open>QString\<close> it is not so: on the empty tables \<open>addUser(QString(), "password1")\<close>
  returns true, \<open>addUser(QString(), "other")\<close> returns true again and stores a second
  row, and \<open>userExists(QString())\<close> answers false after each call. (For every username
  that is not null what C9 asks holds: \<open>addUser_twice_named\<close>.)
\<close>

theorem addUser_null_username_twice:
  "fst (addUser Null (QStr ''password1'') empty_db) \<and>
   \<not> fst (userExists Null (snd (addUser Null (QStr ''password1'') empty_db))) \<and>
   fst (addUser Null (QStr ''other'') (snd (addUser Null (QStr ''password1'') empty_db))) \<and>
   userinfo (snd (addUser Null (QStr ''other'') (snd (addUser Null (QStr ''password1'') empty_db))))
     = [(Null, QStr ''password1''), (Null, QStr ''other'')] \<and>
   \<not> fst (userExists Null
            (snd (addUser Null (QStr ''other'') (snd (addUser Null (QStr ''password1'') empty_db)))))"
  by code_simp

subsection \<open>Creating chats\<close>

lemma insert_chats_eq:
  "insert_chats c u d =
     (if fst (exec d) \<and> c \<notin> chatids d \<and> u \<noteq> Null \<and> \<not> (foreign_keys d \<and> u \<notin> usernames d)
      then (True, (snd (exec d))\<lparr>chats := chats d @ [(c, content u)]\<rparr>)
      else (False, snd (exec d)))"
  by (simp add: insert_chats_def case_prod_beta bool.case_eq_if)

lemma insert_chatusers_eq:
  "insert_chatusers c u d =
     (if fst (exec d) \<and> u \<noteq> Null \<and>
         \<not> (foreign_keys d \<and> (c \<notin> chatids d \<or> u \<notin> usernames d))
      then (True, (snd (exec d))
                    \<lparr>chatusers := chatusers d @ [(new_rowid (chatusers d), c, content u)]\<rparr>)
      else (False, snd (exec d)))"
  by (simp add: insert_chatusers_def case_prod_beta bool.case_eq_if)

lemma insert_chatusers_tables [simp]:
  "userinfo (snd (insert_chatusers c u d)) = userinfo d"
  "chats (snd (insert_chatusers c u d)) = chats d"
  "foreign_keys (snd (insert_chatusers c u d)) = foreign_keys d"
  by (simp_all add: insert_chatusers_eq)

lemma addChat_loop_done:
  "length us \<le> i \<Longrightarrow> addChat_loop c us i s d = (s, d)"
  by (subst addChat_loop.simps) simp

lemma addChat_loop_last:
  "i < length us \<Longrightarrow>
   addChat_loop c us i False d
     = insert_chatusers c (last us) (attempt_members c (drop i (butlast us)) d)"
proof (induction "length us - i" arbitrary: i d)
  case 0
  then show ?case by simp
next
  case (Suc k)
  show ?case
  proof (cases "Suc i < length us")
    case True
    then have step: "addChat_loop c us (Suc i) False (snd (insert_chatusers c (us ! i) d))
        = insert_chatusers c (last us)
            (attempt_members c (drop (Suc i) (butlast us)) (snd (insert_chatusers c (us ! i) d)))"
      using Suc.hyps(2) by (intro Suc.hyps(1)) auto
    from True have "drop i (butlast us) = us ! i # drop (Suc i) (butlast us)"
      by (simp add: Cons_nth_drop_Suc[symmetric] nth_butlast)
    with True step show ?thesis
      by (subst addChat_loop.simps)
        (auto simp: attempt_members_def case_prod_beta bool.case_eq_if)
  next
    case False
    with Suc.prems have i: "i = length us - 1" and ne: "us \<noteq> []"
      by auto
    then have "us ! i = last us"
      by (simp add: last_conv_nth)
    with i ne show ?thesis
      by (subst addChat_loop.simps)
        (auto simp: attempt_members_def addChat_loop_done case_prod_beta bool.case_eq_if
          prod_eq_iff)
  qed
qed

text \<open>
  C1. When \<open>chatExists\<close> has answered false, \<open>userExists\<close> has answered true for the
  owner, the insert into \<open>chats\<close> has succeeded and the member list is not empty,
  \<open>addChat\<close> returns what the insert of the last member returns, executed on the database
  that the attempts for the earlier members have left, whatever their outcomes were: the
  boolean is that insert's success and the database is the one it leaves.
\<close>

theorem addChat_result_is_last_insert:
  assumes "chatExists chatID d = (False, d1)"
    and "userExists owner d1 = (True, d2)"
    and "insert_chats chatID owner d2 = (True, d3)"
    and "members \<noteq> []"
  shows "addChat chatID owner members d
           = insert_chatusers chatID (last members)
               (attempt_members chatID (butlast members) d3)"
  using assms addChat_loop_last [of 0 members chatID d3]
  by (simp add: addChat_def)


theorem addChat_result_is_last_insert_witness:
  "chatExists 1 strict_bob = (False, strict_bob) \<and>
   userExists (QStr ''Bob'') strict_bob = (True, strict_bob) \<and>
   insert_chats 1 (QStr ''Bob'') strict_bob = (True, strict_bob\<lparr>chats := [(1, ''Bob'')]\<rparr>) \<and>
   \<not> fst (insert_chatusers 1 (QStr ''Ghost'') (strict_bob\<lparr>chats := [(1, ''Bob'')]\<rparr>)) \<and>
   fst (addChat 1 (QStr ''Bob'') [QStr ''Ghost'', QStr ''Bob''] strict_bob)"
proof -
  have h1: "chatExists 1 strict_bob = (False, strict_bob)"
    by (simp add: chatExists_eq exec_def strict_bob_def chatids_def)
  have h2: "userExists (QStr ''Bob'') strict_bob = (True, strict_bob)"
    by (simp add: userExists_eq exec_def strict_bob_def usernames_def)
  have h3: "insert_chats 1 (QStr ''Bob'') strict_bob = (True, strict_bob\<lparr>chats := [(1, ''Bob'')]\<rparr>)"
    by (simp add: insert_chats_eq exec_def strict_bob_def usernames_def chatids_def)
  have "fst (addChat 1 (QStr ''Bob'') [QStr ''Ghost'', QStr ''Bob''] strict_bob)"
    using addChat_result_is_last_insert [OF h1 h2 h3, of "[QStr ''Ghost'', QStr ''Bob'']"]
    by (simp add: attempt_members_def insert_chatusers_eq exec_def strict_bob_def
        usernames_def chatids_def)
  moreover have "\<not> fst (insert_chatusers 1 (QStr ''Ghost'') (strict_bob\<lparr>chats := [(1, ''Bob'')]\<rparr>))"
    by (simp add: insert_chatusers_eq exec_def strict_bob_def usernames_def chatids_def)
  ultimately show ?thesis
    using h1 h2 h3 by simp
qed

text \<open>
  The other direction at a concrete input: the first membership insert succeeds, the store
  fails the second and last one, and \<open>addChat\<close> returns false.
\<close>

lemma addChat_last_insert_fails_example:
  "fst (insert_chatusers 1 (QStr ''Bob'') (snd (insert_chats 1 (QStr ''Bob'') (snd (userExists (QStr ''Bob'') (snd (chatExists 1 failing_fifth))))))) \<and>
   \<not> fst (addChat 1 (QStr ''Bob'') [QStr ''Bob'', QStr ''Fred''] failing_fifth)"
  by (simp add: addChat_def chatExists_eq userExists_eq insert_chats_eq insert_chatusers_eq
      addChat_loop.simps exec_def failing_fifth_def demo_users_def usernames_def chatids_def)

lemma addChat_rejected:
  assumes "chatID \<in> chatids d \<or> owner \<notin> usernames d"
  shows "addChat chatID owner members d =
           (False, if fst (exec d) \<and> chatID \<in> chatids d then snd (exec d)
                   else if fst (exec (snd (exec d))) \<and> owner \<in> usernames d
                   then snd (exec (snd (exec (snd (exec d)))))
                   else snd (exec (snd (exec d))))"
  using assms
  by (auto simp: addChat_def chatExists_eq userExists_eq insert_chats_eq)

text \<open>
  C6. When \<open>chats\<close> already has a row for the chat id, or \<open>userinfo\<close> has no row for
  the owner, \<open>addChat\<close> returns false and the three tables are what they were before the
  call.
\<close>

theorem addChat_rejected_writes_nothing:
  assumes "chatID \<in> chatids d \<or> owner \<notin> usernames d"
  shows "\<not> fst (addChat chatID owner members d) \<and>
         userinfo (snd (addChat chatID owner members d)) = userinfo d \<and>
         chats (snd (addChat chatID owner members d)) = chats d \<and>
         chatusers (snd (addChat chatID owner members d)) = chatusers d"
  by (simp add: addChat_rejected [OF assms])

theorem addChat_rejected_writes_nothing_witness:
  "(1 \<in> chatids demo_users \<or> QStr ''Nick'' \<notin> usernames demo_users) \<and>
   \<not> fst (addChat 1 (QStr ''Nick'') [QStr ''Bob'', QStr ''Fred''] demo_users) \<and>
   chats (snd (addChat 1 (QStr ''Nick'') [QStr ''Bob'', QStr ''Fred''] demo_users)) = [] \<and>
   chatusers (snd (addChat 1 (QStr ''Nick'') [QStr ''Bob'', QStr ''Fred''] demo_users)) = [] \<and>
   (1 \<in> chatids demo_chat \<or> QStr ''Fred'' \<notin> usernames demo_chat) \<and>
   \<not> fst (addChat 1 (QStr ''Fred'') [QStr ''Fred''] demo_chat) \<and>
   chats (snd (addChat 1 (QStr ''Fred'') [QStr ''Fred''] demo_chat)) = [(1, ''Bob'')] \<and>
   chatusers (snd (addChat 1 (QStr ''Fred'') [QStr ''Fred''] demo_chat)) = [(1, 1, ''Bob''), (2, 1, ''Fred'')]"
proof -
  have h1: "1 \<in> chatids demo_users \<or> QStr ''Nick'' \<notin> usernames demo_users"
    by (simp add: demo_users_def usernames_def)
  have h2: "1 \<in> chatids demo_chat \<or> QStr ''Fred'' \<notin> usernames demo_chat"
    by (simp add: demo_chat_def chatids_def)
  show ?thesis
    using h1 h2 addChat_rejected_writes_nothing [OF h1, of "[QStr ''Bob'', QStr ''Fred'']"]
      addChat_rejected_writes_nothing [OF h2, of "[QStr ''Fred'']"]
    by (simp add: demo_users_def demo_chat_def)
qed

text \<open>
  C7. \<open>addChat\<close> with an empty member list returns false in every state; when the chat id
  is new, the owner is a user and the store executes the three statements, the row of the
  chat has nevertheless been inserted, and \<open>chatExists\<close> answers true afterwards (when the
  store executes its SELECT).
\<close>

theorem addChat_empty_members:
  "\<not> fst (addChat chatID owner [] d) \<and>
   (chatID \<notin> chatids d \<and> owner \<in> usernames d \<and> executes 3 d \<longrightarrow>
      chats (snd (addChat chatID owner [] d)) = chats d @ [(chatID, content owner)] \<and>
      (executes 1 (snd (addChat chatID owner [] d)) \<longrightarrow>
         fst (chatExists chatID (snd (addChat chatID owner [] d)))))"
proof -
  have "\<not> fst (addChat chatID owner [] d)"
    by (simp add: addChat_def addChat_loop_done case_prod_beta bool.case_eq_if)
  moreover have "addChat chatID owner [] d
      = (False, (snd (exec (snd (exec (snd (exec d))))))
                  \<lparr>chats := chats d @ [(chatID, content owner)]\<rparr>)"
    if "chatID \<notin> chatids d" "owner \<in> usernames d" "executes 3 d"
  proof -
    from that(2) have "owner \<noteq> Null"
      by auto
    with that show ?thesis
      by (simp add: addChat_def chatExists_eq userExists_eq insert_chats_eq addChat_loop_done
          executes_Suc eval_nat_numeral)
  qed
  ultimately show ?thesis
    by (auto simp: chatExists_eq executes_Suc chatids_def)
qed


theorem addChat_empty_members_witness:
  "1 \<notin> chatids demo_users \<and> QStr ''Bob'' \<in> usernames demo_users \<and> executes 3 demo_users \<and>
   \<not> fst (addChat 1 (QStr ''Bob'') [] demo_users) \<and>
   chats (snd (addChat 1 (QStr ''Bob'') [] demo_users)) = [(1, ''Bob'')] \<and>
   executes 1 (snd (addChat 1 (QStr ''Bob'') [] demo_users)) \<and>
   fst (chatExists 1 (snd (addChat 1 (QStr ''Bob'') [] demo_users)))"
proof -
  have h: "1 \<notin> chatids demo_users \<and> QStr ''Bob'' \<in> usernames demo_users \<and> executes 3 demo_users"
    by (simp add: demo_users_def chatids_def usernames_def executes_def)
  have e: "executes 1 (snd (addChat 1 (QStr ''Bob'') [] demo_users))"
    by (simp add: addChat_def chatExists_eq userExists_eq insert_chats_eq addChat_loop_done
        exec_def demo_users_def chatids_def usernames_def executes_def)
  show ?thesis
    using h e addChat_empty_members [of 1 "QStr ''Bob''" demo_users]
    by (simp add: demo_users_def)
qed

subsection \<open>Removing chats\<close>

lemma getChatOwner_loop_Row:
  "n < length rs \<Longrightarrow>
   getChatOwner_loop \<lparr>qrows = rs, qpos = Row n\<rparr> acc
     = (if Suc n < length rs then last rs else acc)"
proof (induction "length rs - n" arbitrary: n acc)
  case 0
  then show ?case by simp
next
  case (Suc k)
  show ?case
  proof (cases "Suc n < length rs")
    case True
    with Suc have "getChatOwner_loop \<lparr>qrows = rs, qpos = Row (Suc n)\<rparr> (rs ! Suc n)
      = (if Suc (Suc n) < length rs then last rs else rs ! Suc n)"
      by (intro Suc.hyps) auto
    moreover have "rs ! Suc n = last rs" if "\<not> Suc (Suc n) < length rs"
    proof -
      from that True have "length rs - 1 = Suc n" and "rs \<noteq> []"
        by auto
      then show ?thesis
        by (simp add: last_conv_nth)
    qed
    ultimately show ?thesis
      using True
      by (subst getChatOwner_loop.simps)
        (simp add: query_next_def query_value_def toString_text_def)
  next
    case False
    then show ?thesis
      by (subst getChatOwner_loop.simps) (simp add: query_next_def)
  qed
qed

lemma getChatOwner_loop_fresh:
  "rs \<noteq> [] \<Longrightarrow> getChatOwner_loop \<lparr>qrows = rs, qpos = BeforeFirstRow\<rparr> acc = last rs"
  using getChatOwner_loop_Row [of 0 rs "rs ! 0"]
  by (subst getChatOwner_loop.simps)
    (auto simp: query_next_def query_value_def toString_text_def last_conv_nth
      less_Suc_eq_0_disj neq_Nil_conv)

lemma getChatOwner_eq:
  "getChatOwner c d =
     (if fst (exec d) \<and> c \<in> chatids d
      then (if fst (exec (snd (exec d)))
            then last (map snd (filter (\<lambda>r. fst r = c) (chats d))) else [],
            snd (exec (snd (exec d))))
      else ([], snd (exec d)))"
proof -
  have "map snd (filter (\<lambda>r. fst r = c) (chats d)) \<noteq> []" if "c \<in> chatids d"
    using that by (simp add: chatids_def filter_fst_nonempty)
  then show ?thesis
    by (simp add: getChatOwner_def chatExists_eq select_owner_chats_def run_select_eq
        sqlSize_fresh getChatOwner_loop_fresh bool.case_eq_if)
qed

lemma filter_key_unique:
  "distinct (map fst rs) \<Longrightarrow> (k, v) \<in> set rs \<Longrightarrow> filter (\<lambda>r. fst r = k) rs = [(k, v)]"
proof (induction rs)
  case Nil
  then show ?case by simp
next
  case (Cons r rs)
  have "filter (\<lambda>r. fst r = k) rs = []" if "k \<notin> fst ` set rs"
    using that by (auto simp: filter_empty_conv)
  with Cons show ?case
    by (auto simp: rev_image_eqI)
qed

lemma delete_chats_eq:
  "delete_chats c d =
     (if fst (exec d) \<and> \<not> (foreign_keys d \<and> c \<in> chatids d \<and> c \<in> member_chatids d)
      then (True, (snd (exec d))\<lparr>chats := filter (\<lambda>r. fst r \<noteq> c) (chats d)\<rparr>)
      else (False, snd (exec d)))"
  by (simp add: delete_chats_def case_prod_beta bool.case_eq_if)

lemma delete_chatusers_eq:
  "delete_chatusers c d =
     (if fst (exec d)
      then (True, (snd (exec d))\<lparr>chatusers := filter (\<lambda>r. fst (snd r) \<noteq> c) (chatusers d)\<rparr>)
      else (False, snd (exec d)))"
  by (simp add: delete_chatusers_def case_prod_beta bool.case_eq_if)

lemma getChatUsers_no_chat: "c \<notin> chatids d \<Longrightarrow> fst (getChatUsers c d) = []"
  by (simp add: getChatUsers_def chatExists_eq)

lemma removeChat_not_owner:
  assumes "(c, A) \<in> set (chats d)" and "distinct (map fst (chats d))"
    and "content B \<noteq> A" and "content B \<noteq> [] \<or> executes 3 d"
  shows "\<not> fst (removeChat c B d)"
    and "chats (snd (removeChat c B d)) = chats d"
    and "chatusers (snd (removeChat c B d)) = chatusers d"
proof -
  from assms(1) have c: "c \<in> chatids d"
    by (force simp: chatids_def)
  have "fst (getChatOwner c (snd (exec d))) \<noteq> content B" if "fst (exec d)"
    using that assms c
    by (auto simp: getChatOwner_eq filter_key_unique executes_Suc eval_nat_numeral)
  then have "removeChat c B d
      = (False, if fst (exec d) then snd (getChatOwner c (snd (exec d))) else snd (exec d))"
    using c by (simp add: removeChat_def chatExists_eq case_prod_beta bool.case_eq_if)
  then show "\<not> fst (removeChat c B d)"
    and "chats (snd (removeChat c B d)) = chats d"
    and "chatusers (snd (removeChat c B d)) = chatusers d"
    by (simp_all add: getChatOwner_eq)
qed

lemma delete_chats_done:
  "fst (delete_chats c d) \<Longrightarrow> c \<notin> chatids (snd (delete_chats c d))"
  by (auto simp: delete_chats_eq chatids_def split: if_splits)

lemma delete_chatusers_chats [simp]:
  "chats (snd (delete_chatusers c d)) = chats d"
  by (simp add: delete_chatusers_eq)

lemma delete_chatusers_done:
  "fst (delete_chatusers c d) \<Longrightarrow> c \<notin> member_chatids (snd (delete_chatusers c d))"
  by (auto simp: delete_chatusers_eq member_chatids_def split: if_splits)

lemma removeChat_true:
  assumes "fst (removeChat c A d)"
  shows "c \<notin> chatids (snd (removeChat c A d))"
    and "c \<notin> member_chatids (snd (removeChat c A d))"
proof -
  define d2 where "d2 = snd (getChatOwner c (snd (chatExists c d)))"
  define d3 where "d3 = snd (delete_chats c d2)"
  from assms have 1: "fst (delete_chats c d2)"
    unfolding removeChat_def d2_def
    by (simp add: case_prod_beta bool.case_eq_if split: if_splits)
  from assms have 2: "fst (delete_chatusers c d3)"
    unfolding removeChat_def d2_def d3_def
    by (simp add: case_prod_beta bool.case_eq_if split: if_splits)
  from assms have 3: "snd (removeChat c A d) = snd (delete_chatusers c d3)"
    unfolding removeChat_def d2_def d3_def
    by (simp add: case_prod_beta bool.case_eq_if split: if_splits)
  from 1 have "c \<notin> chatids d3"
    unfolding d3_def by (rule delete_chats_done)
  then show "c \<notin> chatids (snd (removeChat c A d))"
    by (simp add: 3 chatids_def)
  from 2 show "c \<notin> member_chatids (snd (removeChat c A d))"
    unfolding 3 by (rule delete_chatusers_done)
qed

lemma removeChat_owner:
  assumes "(c, A) \<in> set (chats d)" and "distinct (map fst (chats d))" and "executes 3 d"
  shows "fst (removeChat c (QStr A) d)
           = (fst (delete_chats c (snd (getChatOwner c (snd (chatExists c d))))) \<and>
              fst (delete_chatusers c
                     (snd (delete_chats c (snd (getChatOwner c (snd (chatExists c d))))))))"
proof -
  from assms(1) have "c \<in> chatids d"
    by (force simp: chatids_def)
  with assms show ?thesis
    by (simp add: removeChat_def chatExists_eq getChatOwner_eq filter_key_unique
        executes_Suc eval_nat_numeral case_prod_beta bool.case_eq_if)
qed

text \<open>
  What holds of the owner's gate. For a chat whose row in \<open>chats\<close> names \<open>A\<close> as owner
  (chat ids being unique, as the primary key has it): \<open>removeChat\<close> for a name \<open>B\<close> with
  other characters returns false and leaves \<open>chats\<close> and \<open>chatusers\<close> as they were, so
  that \<open>chatExists\<close> still answers true, provided that \<open>B\<close> has characters at all or that
  the store executes the three SELECTs; \<open>removeChat\<close> for \<open>A\<close>, once the store has executed
  the three SELECTs, returns true exactly when both deletions succeed; and whenever it
  returns true, no row of \<open>chats\<close> or \<open>chatusers\<close> names the chat any more, \<open>chatExists\<close>
  answers false and \<open>getChatUsers\<close> returns the empty list.
\<close>

lemma removeChat_by_owner_only:
  assumes "(chatID, A) \<in> set (chats d)" and "distinct (map fst (chats d))"
  shows
    "(content B \<noteq> A \<and> (content B \<noteq> [] \<or> executes 3 d) \<longrightarrow>
        \<not> fst (removeChat chatID B d) \<and>
        chats (snd (removeChat chatID B d)) = chats d \<and>
        chatusers (snd (removeChat chatID B d)) = chatusers d \<and>
        (executes 1 (snd (removeChat chatID B d)) \<longrightarrow>
           fst (chatExists chatID (snd (removeChat chatID B d))))) \<and>
     (executes 3 d \<longrightarrow>
        fst (removeChat chatID (QStr A) d)
          = (fst (delete_chats chatID (snd (getChatOwner chatID (snd (chatExists chatID d))))) \<and>
             fst (delete_chatusers chatID
                    (snd (delete_chats chatID
                            (snd (getChatOwner chatID (snd (chatExists chatID d))))))))) \<and>
     (fst (removeChat chatID (QStr A) d) \<longrightarrow>
        chatID \<notin> chatids (snd (removeChat chatID (QStr A) d)) \<and>
        chatID \<notin> member_chatids (snd (removeChat chatID (QStr A) d)) \<and>
        \<not> fst (chatExists chatID (snd (removeChat chatID (QStr A) d))) \<and>
        fst (getChatUsers chatID (snd (removeChat chatID (QStr A) d))) = [])"
proof (intro conjI impI)
  assume B: "content B \<noteq> A \<and> (content B \<noteq> [] \<or> executes 3 d)"
  then show "\<not> fst (removeChat chatID B d)"
    using removeChat_not_owner(1) [OF assms, of B] by blast
  from B show keep: "chats (snd (removeChat chatID B d)) = chats d"
    using removeChat_not_owner(2) [OF assms, of B] by blast
  from B show "chatusers (snd (removeChat chatID B d)) = chatusers d"
    using removeChat_not_owner(3) [OF assms, of B] by blast
  assume "executes 1 (snd (removeChat chatID B d))"
  moreover from assms(1) keep have "chatID \<in> chatids (snd (removeChat chatID B d))"
    by (force simp: chatids_def)
  ultimately show "fst (chatExists chatID (snd (removeChat chatID B d)))"
    by (simp add: chatExists_eq executes_Suc)
next
  assume "executes 3 d"
  with assms show "fst (removeChat chatID (QStr A) d)
      = (fst (delete_chats chatID (snd (getChatOwner chatID (snd (chatExists chatID d))))) \<and>
         fst (delete_chatusers chatID
                (snd (delete_chats chatID
                        (snd (getChatOwner chatID (snd (chatExists chatID d))))))))"
    by (rule removeChat_owner)
next
  assume t: "fst (removeChat chatID (QStr A) d)"
  then show gone: "chatID \<notin> chatids (snd (removeChat chatID (QStr A) d))"
    by (rule removeChat_true)
  from t show "chatID \<notin> member_chatids (snd (removeChat chatID (QStr A) d))"
    by (rule removeChat_true)
  from gone show "\<not> fst (chatExists chatID (snd (removeChat chatID (QStr A) d)))"
    by (simp add: chatExists_eq)
  from gone show "fst (getChatUsers chatID (snd (removeChat chatID (QStr A) d))) = []"
    by (rule getChatUsers_no_chat)
qed

lemma removeChat_demo_chat:
  "removeChat 1 (QStr ''Bob'') demo_chat = (True, demo_chat\<lparr>chats := [], chatusers := []\<rparr>)"
  by (simp add: removeChat_def chatExists_eq getChatOwner_eq delete_chats_eq
      delete_chatusers_eq exec_def demo_chat_def chatids_def)

lemma removeChat_by_owner_only_example:
  "(1, ''Bob'') \<in> set (chats demo_chat) \<and> distinct (map fst (chats demo_chat)) \<and>
   executes 3 demo_chat \<and>
   \<not> fst (removeChat 1 (QStr ''Fred'') demo_chat) \<and>
   chats (snd (removeChat 1 (QStr ''Fred'') demo_chat)) = [(1, ''Bob'')] \<and>
   chatusers (snd (removeChat 1 (QStr ''Fred'') demo_chat)) = [(1, 1, ''Bob''), (2, 1, ''Fred'')] \<and>
   fst (removeChat 1 (QStr ''Bob'') demo_chat) \<and>
   \<not> fst (chatExists 1 (snd (removeChat 1 (QStr ''Bob'') demo_chat))) \<and>
   fst (getChatUsers 1 (snd (removeChat 1 (QStr ''Bob'') demo_chat))) = []"
proof -
  have h1: "(1, ''Bob'') \<in> set (chats demo_chat)"
    and h2: "distinct (map fst (chats demo_chat))"
    by (simp_all add: demo_chat_def)
  have h3: "executes 3 demo_chat"
    by (simp add: executes_def demo_chat_def)
  have h4: "fst (removeChat 1 (QStr ''Bob'') demo_chat)"
    by (simp add: removeChat_demo_chat)
  show ?thesis
    using h1 h2 h3 h4 removeChat_by_owner_only [OF h1 h2, of "QStr ''Fred''"]
    by (simp add: demo_chat_def)
qed

text \<open>
  C5 asks that \<open>removeChat(id, B)\<close> return false and leave the chat in place whenever
  \<open>B\<close> is not the owner. It does not when \<open>B\<close> is the empty string and the store fails
  the query for the owner: \<open>getChatOwner\<close> then returns the null \<open>QString\<close>, which
  \<open>==\<close> takes for equal to the empty one, and both deletions run. Chat 1 is Bob's;
  \<open>removeChat(1, "")\<close> returns true and removes the chat and its memberships. (The rest
  of what C5 asks holds: \<open>removeChat_by_owner_only\<close>.)
\<close>

theorem removeChat_empty_name_deletes:
  "(1, ''Bob'') \<in> set (chats failing_third) \<and>
   fst (getChatOwner 1 (snd (chatExists 1 failing_third))) = [] \<and>
   fst (removeChat 1 (QStr '''') failing_third) \<and>
   chats (snd (removeChat 1 (QStr '''') failing_third)) = [] \<and>
   chatusers (snd (removeChat 1 (QStr '''') failing_third)) = []"
  by code_simp

subsection \<open>Decimal numerals\<close>

lemma digit_chars_distinct: "distinct ''0123456789''"
  by simp

lemma digit_char_inj:
  "a < 10 \<Longrightarrow> b < 10 \<Longrightarrow> (''0123456789'' ! a = ''0123456789'' ! b) = (a = b)"
  using digit_chars_distinct by (simp add: nth_eq_iff_index_eq del: distinct.simps)

lemma digit_char_in: "a < 10 \<Longrightarrow> ''0123456789'' ! a \<in> set ''0123456789''"
  by (rule nth_mem) simp

lemma digits_nonempty: "digits n \<noteq> []"
  by (subst digits.simps) simp

lemma digits_chars: "set (digits n) \<subseteq> set ''0123456789''"
proof (induction n rule: digits.induct)
  case (1 n)
  show ?case
  proof (cases "n < 10")
    case True
    then show ?thesis
      using digit_char_in [of n] by (subst digits.simps) simp
  next
    case False
    then show ?thesis
      using 1 digit_char_in [of "n mod 10"] by (subst digits.simps) simp
  qed
qed

lemma digits_length_one: "(length (digits n) = 1) = (n < 10)"
proof (cases "n < 10")
  case True
  then show ?thesis by (subst digits.simps) simp
next
  case False
  then show ?thesis
    using digits_nonempty [of "n div 10"]
    by (subst digits.simps) (simp add: Suc_length_conv)
qed

lemma digits_inj: "digits n = digits m \<Longrightarrow> n = m"
proof (induction n arbitrary: m rule: digits.induct)
  case (1 n)
  show ?case
  proof (cases "n < 10")
    case True
    with "1.prems" have m: "m < 10"
      using digits_length_one [of n] digits_length_one [of m] by simp
    from "1.prems" True m have "''0123456789'' ! n = ''0123456789'' ! m"
      by (simp add: digits.simps [of n] digits.simps [of m])
    with True m show ?thesis
      by (simp only: digit_char_inj)
  next
    case False
    with "1.prems" have m: "\<not> m < 10"
      using digits_length_one [of n] digits_length_one [of m] by simp
    from "1.prems" False m have "digits (n div 10) = digits (m div 10)"
      and c: "''0123456789'' ! (n mod 10) = ''0123456789'' ! (m mod 10)"
      by (simp_all add: digits.simps [of n] digits.simps [of m])
    with False have "n div 10 = m div 10"
      using "1.IH" by blast
    moreover from c have "n mod 10 = m mod 10"
      by (simp add: digit_char_inj del: nth_Cons_numeral)
    ultimately show ?thesis
      by (metis div_mult_mod_eq)
  qed
qed

lemma number_inj: "(number i = number j) = (i = j)"
proof -
  have "CHR ''-'' \<notin> set (digits n)" for n
    using digits_chars [of n] by auto
  then have no_minus: "digits n \<noteq> CHR ''-'' # digits m" for n m
    by (metis list.set_intros(1))
  show ?thesis
  proof (cases "i < 0"; cases "j < 0")
    assume "i < 0" "j < 0"
    then show ?thesis
      using digits_inj [of "nat (- i)" "nat (- j)"] by (auto simp: number_def)
  next
    assume "i < 0" "\<not> j < 0"
    then show ?thesis
      using no_minus [of "nat j" "nat (- i)"] by (auto simp: number_def)
  next
    assume "\<not> i < 0" "j < 0"
    then show ?thesis
      using no_minus [of "nat i" "nat (- j)"] by (auto simp: number_def)
  next
    assume "\<not> i < 0" "\<not> j < 0"
    then show ?thesis
      using digits_inj [of "nat i" "nat j"] by (auto simp: number_def)
  qed
qed

lemma number_nonempty: "number i \<noteq> []"
  by (simp add: number_def digits_nonempty)

lemma number_no_comma: "CHR '','' \<notin> set (number i)"
  using digits_chars [of "nat i"] digits_chars [of "nat (- i)"]
  by (auto simp: number_def)

subsection \<open>Shared chats\<close>

lemma doUsersChat_inner_after:
  "doUsersChat_inner q1 \<lparr>qrows = rs, qpos = AfterLastRow\<rparr>
     = (False, \<lparr>qrows = rs, qpos = AfterLastRow\<rparr>)"
  by (subst doUsersChat_inner.simps) (simp add: query_next_def)

lemma doUsersChat_inner_Row:
  "n < length rs \<Longrightarrow>
   fst (doUsersChat_inner q1 \<lparr>qrows = rs, qpos = Row n\<rparr>)
     = (\<exists>x \<in> set (drop (Suc n) rs). toString_int (query_value q1) = number x) \<and>
   (\<not> fst (doUsersChat_inner q1 \<lparr>qrows = rs, qpos = Row n\<rparr>) \<longrightarrow>
      snd (doUsersChat_inner q1 \<lparr>qrows = rs, qpos = Row n\<rparr>)
        = \<lparr>qrows = rs, qpos = AfterLastRow\<rparr>)"
proof (induction "length rs - n" arbitrary: n)
  case 0
  then show ?case by simp
next
  case (Suc k)
  show ?case
  proof (cases "Suc n < length rs")
    case True
    then have d: "drop (Suc n) rs = rs ! Suc n # drop (Suc (Suc n)) rs"
      by (simp add: Cons_nth_drop_Suc)
    from True Suc.hyps(2) have IH:
      "fst (doUsersChat_inner q1 \<lparr>qrows = rs, qpos = Row (Suc n)\<rparr>)
         = (\<exists>x \<in> set (drop (Suc (Suc n)) rs). toString_int (query_value q1) = number x) \<and>
       (\<not> fst (doUsersChat_inner q1 \<lparr>qrows = rs, qpos = Row (Suc n)\<rparr>) \<longrightarrow>
          snd (doUsersChat_inner q1 \<lparr>qrows = rs, qpos = Row (Suc n)\<rparr>)
            = \<lparr>qrows = rs, qpos = AfterLastRow\<rparr>)"
      by (intro Suc.hyps(1)) auto
    show ?thesis
      using True IH
      by (subst (1 2 3) doUsersChat_inner.simps)
        (simp add: d query_next_def query_value_def toString_int_def)
  next
    case False
    then show ?thesis
      by (subst (1 2 3) doUsersChat_inner.simps) (simp add: query_next_def)
  qed
qed

lemma doUsersChat_inner_fresh:
  assumes "rs \<noteq> []"
  shows "fst (doUsersChat_inner q1 \<lparr>qrows = rs, qpos = BeforeFirstRow\<rparr>)
           = (\<exists>x \<in> set rs. toString_int (query_value q1) = number x)"
    and "\<not> fst (doUsersChat_inner q1 \<lparr>qrows = rs, qpos = BeforeFirstRow\<rparr>) \<Longrightarrow>
         snd (doUsersChat_inner q1 \<lparr>qrows = rs, qpos = BeforeFirstRow\<rparr>)
           = \<lparr>qrows = rs, qpos = AfterLastRow\<rparr>"
proof -
  from assms obtain r rs' where rs: "rs = r # rs'"
    by (cases rs) auto
  have row: "fst (doUsersChat_inner q1 \<lparr>qrows = rs, qpos = Row 0\<rparr>)
       = (\<exists>x \<in> set rs'. toString_int (query_value q1) = number x) \<and>
     (\<not> fst (doUsersChat_inner q1 \<lparr>qrows = rs, qpos = Row 0\<rparr>) \<longrightarrow>
        snd (doUsersChat_inner q1 \<lparr>qrows = rs, qpos = Row 0\<rparr>)
          = \<lparr>qrows = rs, qpos = AfterLastRow\<rparr>)"
    using doUsersChat_inner_Row [of 0 rs q1] by (simp add: rs)
  show "fst (doUsersChat_inner q1 \<lparr>qrows = rs, qpos = BeforeFirstRow\<rparr>)
           = (\<exists>x \<in> set rs. toString_int (query_value q1) = number x)"
    using row
    by (subst doUsersChat_inner.simps)
      (auto simp: rs query_next_def query_value_def toString_int_def)
  show "snd (doUsersChat_inner q1 \<lparr>qrows = rs, qpos = BeforeFirstRow\<rparr>)
           = \<lparr>qrows = rs, qpos = AfterLastRow\<rparr>"
    if "\<not> fst (doUsersChat_inner q1 \<lparr>qrows = rs, qpos = BeforeFirstRow\<rparr>)"
    using row that
    by (subst doUsersChat_inner.simps, subst (asm) doUsersChat_inner.simps)
      (auto simp: rs query_next_def query_value_def toString_int_def split: if_splits)
qed

lemma doUsersChat_outer_after:
  "doUsersChat_outer q1 \<lparr>qrows = rs, qpos = AfterLastRow\<rparr> = False"
proof (induction "ahead q1" arbitrary: q1 rule: less_induct)
  case less
  show ?case
  proof (cases "fst (query_next q1)")
    case True
    then have "doUsersChat_outer (snd (query_next q1)) \<lparr>qrows = rs, qpos = AfterLastRow\<rparr> = False"
      by (intro less) (rule query_next_ahead)
    with True show ?thesis
      by (subst doUsersChat_outer.simps) (simp add: doUsersChat_inner_after)
  next
    case False
    then show ?thesis
      by (subst doUsersChat_outer.simps) simp
  qed
qed

lemma doUsersChat_outer_fresh:
  assumes "rs1 \<noteq> []" and "rs2 \<noteq> []"
  shows "doUsersChat_outer \<lparr>qrows = rs1, qpos = BeforeFirstRow\<rparr>
           \<lparr>qrows = rs2, qpos = BeforeFirstRow\<rparr> = (hd rs1 \<in> set rs2)"
proof -
  let ?q1 = "\<lparr>qrows = rs1, qpos = Row 0\<rparr>"
  let ?q2 = "\<lparr>qrows = rs2, qpos = BeforeFirstRow\<rparr>"
  from assms(1) have n: "query_next \<lparr>qrows = rs1, qpos = BeforeFirstRow\<rparr> = (True, ?q1)"
    by (simp add: query_next_def)
  from assms(1) have v: "toString_int (query_value ?q1) = number (hd rs1)"
    by (simp add: query_value_def toString_int_def hd_conv_nth)
  have found: "fst (doUsersChat_inner ?q1 ?q2) = (hd rs1 \<in> set rs2)"
    using doUsersChat_inner_fresh(1) [OF assms(2), of ?q1] by (auto simp: v number_inj)
  show ?thesis
  proof (cases "hd rs1 \<in> set rs2")
    case True
    with found show ?thesis
      by (subst doUsersChat_outer.simps) (simp add: n)
  next
    case False
    with found have "snd (doUsersChat_inner ?q1 ?q2) = \<lparr>qrows = rs2, qpos = AfterLastRow\<rparr>"
      using doUsersChat_inner_fresh(2) [OF assms(2), of ?q1] by simp
    with False found show ?thesis
      by (subst doUsersChat_outer.simps) (simp add: n doUsersChat_outer_after)
  qed
qed

text \<open>
  What \<open>doUsersChat\<close> computes. The cursor of \<open>query2\<close> is not moved back before the
  second round of the outer loop, so every chat of the first user but the first one meets
  an exhausted result set: the answer is whether the first chat of the first user is a chat
  of the second user.
\<close>

lemma doUsersChat_first_chat_only:
  "fst (doUsersChat u1 u2 d) =
     (fst (exec d) \<and> fst (exec (snd (exec d))) \<and>
      chats_of u1 d \<noteq> [] \<and> hd (chats_of u1 d) \<in> set (chats_of u2 d))"
proof (cases "chats_of u2 d = []")
  case True
  then show ?thesis
    by (simp add: doUsersChat_def select_chatid_chatusers_def run_select_eq sqlSize_fresh
        chats_of_def case_prod_beta)
next
  case False
  then show ?thesis
    by (simp add: doUsersChat_def select_chatid_chatusers_def run_select_eq sqlSize_fresh
        chats_of_def [symmetric] case_prod_beta doUsersChat_outer_fresh)
qed

lemma doUsersChat_sound:
  "fst (doUsersChat u1 u2 d) \<Longrightarrow> \<exists>c. c \<in> set (chats_of u1 d) \<and> c \<in> set (chats_of u2 d)"
proof -
  assume "fst (doUsersChat u1 u2 d)"
  then have "chats_of u1 d \<noteq> []" and "hd (chats_of u1 d) \<in> set (chats_of u2 d)"
    by (simp_all add: doUsersChat_first_chat_only)
  then have "hd (chats_of u1 d) \<in> set (chats_of u1 d) \<and> hd (chats_of u1 d) \<in> set (chats_of u2 d)"
    by simp
  then show ?thesis ..
qed

lemma doUsersChat_no_rows:
  "chats_of u1 d = [] \<or> chats_of u2 d = [] \<Longrightarrow> \<not> fst (doUsersChat u1 u2 d)"
  by (auto simp: doUsersChat_first_chat_only)

lemma two_chats_eq:
  "two_chats =
     \<lparr>userinfo = [(QStr ''Bob'', QStr ''password1''), (QStr ''Fred'', QStr ''password2'')],
      chats = [(1, ''Bob''), (2, ''Bob'')],
      chatusers = [(1, 1, ''Bob''), (2, 2, ''Bob''), (3, 2, ''Fred'')],
      foreign_keys = False, faults = []\<rparr>"
  by code_simp

text \<open>
  C2 asks that \<open>doUsersChat x y\<close> and \<open>doUsersChat y x\<close> always agree. They do not:
  with Bob in chats 1 and 2 and Fred in chat 2, \<open>doUsersChat\<close> answers false for
  (Bob, Fred) and true for (Fred, Bob).
\<close>

theorem doUsersChat_not_symmetric:
  "\<not> fst (doUsersChat (QStr ''Bob'') (QStr ''Fred'') two_chats) \<and> fst (doUsersChat (QStr ''Fred'') (QStr ''Bob'') two_chats)"
  by code_simp

text \<open>
  C3 asks that \<open>doUsersChat\<close> answer true exactly when some chat id occurs in the rows
  of both users. It does not: in the same state Bob and Fred both have a row for chat 2,
  and the answer for (Bob, Fred) is false. (The other half holds: a true answer comes with
  a common chat, and a user without rows gets false, \<open>doUsersChat_sound\<close> and
  \<open>doUsersChat_no_rows\<close>.)
\<close>

theorem doUsersChat_misses_common_chat:
  "(2, 2, ''Bob'') \<in> set (chatusers two_chats) \<and> (3, 2, ''Fred'') \<in> set (chatusers two_chats) \<and>
   \<not> fst (doUsersChat (QStr ''Bob'') (QStr ''Fred'') two_chats)"
  by code_simp

subsection \<open>The chat summary\<close>

lemma join_comma_Cons: "ts \<noteq> [] \<Longrightarrow> join_comma (t # ts) = t @ '','' @ join_comma ts"
  by (cases ts) simp_all

lemma join_comma_pair:
  "join_comma (toks @ [a, b])
     = (if toks = [] then [] else join_comma toks @ '','') @ a @ '','' @ b"
  by (induction toks rule: join_comma.induct) simp_all

lemma chat_tokens_Nil [simp]: "chat_tokens u c [] = []"
  by (simp add: chat_tokens_def)

lemma chat_tokens_Cons [simp]:
  "chat_tokens u c (m # ms)
     = (if m \<noteq> content u then [number c, m] else []) @ chat_tokens u c ms"
  by (simp add: chat_tokens_def)

lemma getUserChatInfo_users_joins:
  assumes "temp = join_comma toks" and "(flag = 1) = (toks \<noteq> [])"
  shows "fst (getUserChatInfo_users u c users (temp, flag))
           = join_comma (toks @ chat_tokens u c users) \<and>
         (snd (getUserChatInfo_users u c users (temp, flag)) = 1)
           = (toks @ chat_tokens u c users \<noteq> [])"
  using assms
proof (induction users arbitrary: temp flag toks)
  case Nil
  then show ?case by simp
next
  case (Cons m ms)
  show ?case
  proof (cases "m = content u")
    case True
    with Cons.IH [OF Cons.prems] show ?thesis by simp
  next
    case False
    let ?temp = "(if flag = 1 then temp @ '','' else temp) @ number c @ '','' @ m"
    have "?temp = join_comma ((toks @ [number c, m]))"
      using Cons.prems by (auto simp: join_comma_pair)
    moreover have "((1::int) = 1) = (toks @ [number c, m] \<noteq> [])"
      by simp
    ultimately have "fst (getUserChatInfo_users u c ms (?temp, 1))
           = join_comma ((toks @ [number c, m]) @ chat_tokens u c ms) \<and>
         (snd (getUserChatInfo_users u c ms (?temp, 1)) = 1)
           = ((toks @ [number c, m]) @ chat_tokens u c ms \<noteq> [])"
      by (rule Cons.IH)
    with False show ?thesis by simp
  qed
qed

lemma getUserChatInfo_chats_joins:
  assumes "temp = join_comma toks" and "(flag = 1) = (toks \<noteq> [])"
  shows "fst (fst (getUserChatInfo_chats u cs (temp, flag) d))
           = join_comma (toks @ fst (summary_tokens u cs d)) \<and>
         snd (getUserChatInfo_chats u cs (temp, flag) d) = snd (summary_tokens u cs d)"
  using assms
proof (induction cs arbitrary: temp flag toks d)
  case Nil
  then show ?case by simp
next
  case (Cons c cs)
  let ?users = "fst (getChatUsers c d)"
  let ?acc = "getUserChatInfo_users u c ?users (temp, flag)"
  have "fst ?acc = join_comma (toks @ chat_tokens u c ?users) \<and>
        (snd ?acc = 1) = (toks @ chat_tokens u c ?users \<noteq> [])"
    using Cons.prems by (rule getUserChatInfo_users_joins)
  then have "fst (fst (getUserChatInfo_chats u cs (fst ?acc, snd ?acc) (snd (getChatUsers c d))))
           = join_comma ((toks @ chat_tokens u c ?users) @ fst (summary_tokens u cs (snd (getChatUsers c d)))) \<and>
         snd (getUserChatInfo_chats u cs (fst ?acc, snd ?acc) (snd (getChatUsers c d)))
           = snd (summary_tokens u cs (snd (getChatUsers c d)))"
    by (intro Cons.IH) simp_all
  then show ?case
    by (simp add: case_prod_beta)
qed

lemma getUserChatInfo_eq:
  "getUserChatInfo u d =
     (join_comma (fst (summary_tokens u (fst (getChatsUserIsIn u d)) (snd (getChatsUserIsIn u d)))),
      snd (summary_tokens u (fst (getChatsUserIsIn u d)) (snd (getChatsUserIsIn u d))))"
  using getUserChatInfo_chats_joins [of "[]" "[]" 0 u "fst (getChatsUserIsIn u d)"
      "snd (getChatsUserIsIn u d)"]
  by (simp add: getUserChatInfo_def case_prod_beta prod_eq_iff)

lemma chat_tokens_hd:
  "chat_tokens u c users \<noteq> [] \<Longrightarrow> hd (chat_tokens u c users) = number c"
  by (induction users) (auto split: if_splits)

lemma summary_tokens_hd:
  "fst (summary_tokens u cs d) \<noteq> [] \<Longrightarrow> \<exists>c. hd (fst (summary_tokens u cs d)) = number c"
proof (induction cs arbitrary: d)
  case Nil
  then show ?case by simp
next
  case (Cons c cs)
  show ?case
  proof (cases "chat_tokens u c (fst (getChatUsers c d)) = []")
    case True
    with Cons show ?thesis by simp
  next
    case False
    then show ?thesis
      by (auto simp: chat_tokens_hd)
  qed
qed

lemma join_comma_hd: "toks \<noteq> [] \<Longrightarrow> hd toks \<noteq> [] \<Longrightarrow> hd (join_comma toks) = hd (hd toks)"
  by (induction toks rule: join_comma.induct) simp_all

lemma join_comma_empty: "join_comma toks \<noteq> [] \<Longrightarrow> toks \<noteq> []"
  by auto

lemma join_comma_last:
  "toks \<noteq> [] \<Longrightarrow> last toks \<noteq> [] \<Longrightarrow>
   join_comma toks \<noteq> [] \<and> last (join_comma toks) = last (last toks)"
  by (induction toks rule: join_comma.induct) simp_all

text \<open>
  C10, as the code has it. \<open>getUserChatInfo\<close> returns the tokens of \<open>summary_tokens\<close>
  (for the chat ids that \<open>getChatsUserIsIn\<close> returns, in that order, the members that
  \<open>getChatUsers\<close> returns, in that order, without the user, each after the chat id)
  joined with commas. The string is empty when \<open>getChatsUserIsIn\<close> returns no chat; it
  never begins with a comma; and it does not end with a comma when the last token, the name
  of the last co-member, is not empty and does not itself end with a comma.
\<close>

theorem getUserChatInfo_joins_tokens:
  "getUserChatInfo u d =
     (join_comma (fst (summary_tokens u (fst (getChatsUserIsIn u d)) (snd (getChatsUserIsIn u d)))),
      snd (summary_tokens u (fst (getChatsUserIsIn u d)) (snd (getChatsUserIsIn u d)))) \<and>
   (fst (getChatsUserIsIn u d) = [] \<longrightarrow> fst (getUserChatInfo u d) = []) \<and>
   (fst (getUserChatInfo u d) \<noteq> [] \<longrightarrow> hd (fst (getUserChatInfo u d)) \<noteq> CHR '','') \<and>
   (fst (summary_tokens u (fst (getChatsUserIsIn u d)) (snd (getChatsUserIsIn u d))) \<noteq> [] \<and>
    last (fst (summary_tokens u (fst (getChatsUserIsIn u d)) (snd (getChatsUserIsIn u d)))) \<noteq> [] \<and>
    last (last (fst (summary_tokens u (fst (getChatsUserIsIn u d)) (snd (getChatsUserIsIn u d)))))
      \<noteq> CHR '','' \<longrightarrow>
    fst (getUserChatInfo u d) \<noteq> [] \<and> last (fst (getUserChatInfo u d)) \<noteq> CHR '','')"
proof -
  define toks where
    "toks = fst (summary_tokens u (fst (getChatsUserIsIn u d)) (snd (getChatsUserIsIn u d)))"
  have res: "fst (getUserChatInfo u d) = join_comma toks"
    by (simp add: getUserChatInfo_eq toks_def)
  have none: "fst (getUserChatInfo u d) = []" if "fst (getChatsUserIsIn u d) = []"
    using that by (simp add: getUserChatInfo_eq)
  have lead: "hd (fst (getUserChatInfo u d)) \<noteq> CHR '',''" if "fst (getUserChatInfo u d) \<noteq> []"
  proof -
    from that have ne: "toks \<noteq> []"
      unfolding res by (rule join_comma_empty)
    then obtain c where c: "hd toks = number c"
      unfolding toks_def using summary_tokens_hd by blast
    then have "hd (join_comma toks) = hd (number c)"
      using ne by (simp add: join_comma_hd number_nonempty)
    moreover have "hd (number c) \<in> set (number c)"
      by (simp add: number_nonempty)
    ultimately show ?thesis
      using number_no_comma [of c] by (auto simp: res)
  qed
  have trail: "fst (getUserChatInfo u d) \<noteq> [] \<and> last (fst (getUserChatInfo u d)) \<noteq> CHR '',''"
    if "toks \<noteq> [] \<and> last toks \<noteq> [] \<and> last (last toks) \<noteq> CHR '',''"
    using that join_comma_last [of toks] by (simp add: res)
  show ?thesis
    using none lead trail getUserChatInfo_eq [of u d] unfolding toks_def by blast
qed

theorem getUserChatInfo_joins_tokens_witness:
  "fst (getChatsUserIsIn (QStr ''Fred'') demo_main) = [1, 2] \<and>
   fst (summary_tokens (QStr ''Fred'') [1, 2] demo_main)
     = [''1'', ''Bob'', ''1'', ''Harry'', ''2'', ''Harry''] \<and>
   fst (getUserChatInfo (QStr ''Fred'') demo_main) = ''1,Bob,1,Harry,2,Harry'' \<and>
   fst (getChatsUserIsIn (QStr ''Rick'') demo_main) = [] \<and>
   fst (getUserChatInfo (QStr ''Rick'') demo_main) = []"
proof -
  have e1: "getChatsUserIsIn (QStr ''Fred'') demo_main = ([1, 2], demo_main)"
    by code_simp
  have e2: "fst (summary_tokens (QStr ''Fred'') [1, 2] demo_main)
      = [''1'', ''Bob'', ''1'', ''Harry'', ''2'', ''Harry'']"
    by code_simp
  have e3: "fst (getChatsUserIsIn (QStr ''Rick'') demo_main) = []"
    by code_simp
  show ?thesis
    using e1 e2 e3 getUserChatInfo_joins_tokens [of "QStr ''Fred''" demo_main]
      getUserChatInfo_joins_tokens [of "QStr ''Rick''" demo_main]
    by simp
qed

text \<open>
  The claim as written fails for a co-member whose name is empty or ends with a comma: the
  summary of Fred, who shares chat 3 with that user, then ends with a comma.
\<close>

theorem getUserChatInfo_trailing_comma:
  "fst (getUserChatInfo (QStr ''Fred'') nameless_member) = ''3,'' \<and>
   last (fst (getUserChatInfo (QStr ''Fred'') nameless_member)) = CHR '','' \<and>
   fst (getUserChatInfo (QStr ''Fred'') comma_member) = ''3,Harry,'' \<and>
   last (fst (getUserChatInfo (QStr ''Fred'') comma_member)) = CHR '',''"
  by code_simp

subsection \<open>Referential integrity of the memberships\<close>

text \<open>
  C4 asks that in every state reached from the empty tables every row of \<open>chatusers\<close>
  name a chat of \<open>chats\<close> and a user of \<open>userinfo\<close>. On the connection the program
  opens (foreign keys not enforced, no store error) it does not: Bob registers and creates
  chat 1 with the member Ghost, \<open>addChat\<close> returns true and \<open>chatusers\<close> has a row
  whose username is no row of \<open>userinfo\<close>.
\<close>

theorem addChat_unregistered_member:
  "fst (addChat 1 (QStr ''Bob'') [QStr ''Ghost''] (snd (addUser (QStr ''Bob'') (QStr ''password1'') empty_db))) \<and>
   (1, 1, ''Ghost'') \<in> set (chatusers ghost_member) \<and>
   QStr ''Ghost'' \<notin> usernames ghost_member"
  by code_simp

lemma ghost_member_breaks_integrity: "\<not> memberships_refer ghost_member"
  by code_simp

text \<open>
  The integrity is what the declared foreign keys would give: on a connection that enforces
  them, the three operations that write keep it.
\<close>

lemma exec_refer [simp]: "memberships_refer (snd (exec d)) = memberships_refer d"
  by (simp add: memberships_refer_def)

lemma insert_userinfo_refer:
  "memberships_refer d \<Longrightarrow> memberships_refer (snd (insert_userinfo u p d))"
  by (auto simp: insert_userinfo_eq memberships_refer_def usernames_def chatids_def)

lemma insert_chats_refer:
  "memberships_refer d \<Longrightarrow> memberships_refer (snd (insert_chats c u d))"
  by (auto simp: insert_chats_eq memberships_refer_def usernames_def chatids_def)

lemma insert_chatusers_refer:
  "foreign_keys d \<Longrightarrow> memberships_refer d \<Longrightarrow> memberships_refer (snd (insert_chatusers c u d))"
  by (auto simp: insert_chatusers_eq memberships_refer_def usernames_def chatids_def
      QStr_content)

lemma delete_chats_refer:
  assumes "foreign_keys d" and "memberships_refer d"
  shows "memberships_refer (snd (delete_chats c d))"
proof (cases "fst (delete_chats c d)")
  case False
  then have "snd (delete_chats c d) = snd (exec d)"
    by (auto simp: delete_chats_eq split: if_splits)
  with assms(2) show ?thesis
    by simp
next
  case True
  with assms(1) have free: "c \<notin> chatids d \<or> c \<notin> member_chatids d"
    and after: "snd (delete_chats c d)
      = (snd (exec d))\<lparr>chats := filter (\<lambda>r. fst r \<noteq> c) (chats d)\<rparr>"
    by (auto simp: delete_chats_eq split: if_splits)
  have ids: "chatids (snd (delete_chats c d)) = chatids d - {c}"
    by (auto simp: after chatids_def)
  have names: "usernames (snd (delete_chats c d)) = usernames d"
    and rows: "chatusers (snd (delete_chats c d)) = chatusers d"
    by (simp_all add: after usernames_def)
  have "fst (snd r) \<in> chatids d - {c}" if "r \<in> set (chatusers d)" for r
    using that free assms(2) by (auto simp: memberships_refer_def member_chatids_def)
  then show ?thesis
    using assms(2) unfolding memberships_refer_def ids names rows by blast
qed

lemma delete_chatusers_refer:
  "memberships_refer d \<Longrightarrow> memberships_refer (snd (delete_chatusers c d))"
  by (auto simp: delete_chatusers_eq memberships_refer_def usernames_def chatids_def)

lemma delete_chats_foreign_keys [simp]:
  "foreign_keys (snd (delete_chats c d)) = foreign_keys d"
  by (simp add: delete_chats_eq)

lemma insert_chats_foreign_keys [simp]:
  "foreign_keys (snd (insert_chats c u d)) = foreign_keys d"
  by (simp add: insert_chats_eq)

lemma addChat_loop_refer:
  "foreign_keys d \<Longrightarrow> memberships_refer d \<Longrightarrow>
   memberships_refer (snd (addChat_loop c us i s d))"
proof (induction c us i s d rule: addChat_loop.induct)
  case (1 c us i s d)
  show ?case
  proof (cases "i < length us")
    case True
    let ?d = "snd (insert_chatusers c (us ! i) d)"
    have "foreign_keys ?d" and "memberships_refer ?d"
      using "1.prems" by (simp_all add: insert_chatusers_refer)
    with True "1.IH" [of "fst (insert_chatusers c (us ! i) d)" ?d] show ?thesis
      by (subst addChat_loop.simps)
        (cases "insert_chatusers c (us ! i) d", auto simp: bool.case_eq_if)
  next
    case False
    with "1.prems" show ?thesis
      by (subst addChat_loop.simps) simp
  qed
qed

lemma addUser_refer:
  "memberships_refer d \<Longrightarrow> memberships_refer (snd (addUser u p d))"
  using insert_userinfo_refer [of "snd (exec d)" u p]
  by (simp add: addUser_def userExists_eq case_prod_beta bool.case_eq_if)

lemma addChat_refer:
  assumes "foreign_keys d" and "memberships_refer d"
  shows "memberships_refer (snd (addChat c u us d))"
proof -
  let ?d2 = "snd (exec (snd (exec d)))"
  have "memberships_refer (snd (insert_chats c u ?d2))"
    using assms by (simp add: insert_chats_refer)
  then have "memberships_refer (snd (addChat_loop c us 0 False (snd (insert_chats c u ?d2))))"
    using assms by (intro addChat_loop_refer) simp_all
  then show ?thesis
    using assms
    by (simp add: addChat_def chatExists_eq userExists_eq case_prod_beta bool.case_eq_if
      insert_chats_refer)
qed

lemma removeChat_refer:
  assumes "foreign_keys d" and "memberships_refer d"
  shows "memberships_refer (snd (removeChat c u d))"
proof -
  let ?d2 = "snd (getChatOwner c (snd (exec d)))"
  have d2: "foreign_keys ?d2" "memberships_refer ?d2"
    using assms by (simp_all add: getChatOwner_eq)
  then have "memberships_refer (snd (delete_chats c ?d2))"
    by (rule delete_chats_refer)
  then have "memberships_refer (snd (delete_chatusers c (snd (delete_chats c ?d2))))"
    by (rule delete_chatusers_refer)
  then show ?thesis
    using assms d2 delete_chats_refer [OF d2]
    by (simp add: removeChat_def chatExists_eq case_prod_beta bool.case_eq_if)
qed

text \<open>
  The program itself counts on the foreign keys not being enforced: on a connection that
  enforces them \<open>removeChat\<close> cannot remove a chat that has members, because it deletes
  the row of \<open>chats\<close> first, whereas \<open>main.cpp\<close> expects chat 1 with its three members to
  be gone after \<open>removeChat(1, "Bob")\<close>.
\<close>

lemma removeChat_refused_when_enforced:
  assumes "foreign_keys d" and "c \<in> chatids d" and "c \<in> member_chatids d"
  shows "\<not> fst (removeChat c u d)"
proof -
  let ?d2 = "snd (getChatOwner c (snd (exec d)))"
  have "foreign_keys ?d2" and "c \<in> chatids ?d2" and "c \<in> member_chatids ?d2"
    using assms by (simp_all add: getChatOwner_eq chatids_def member_chatids_def)
  then have "\<not> fst (delete_chats c ?d2)"
    by (simp add: delete_chats_eq)
  then show ?thesis
    by (simp add: removeChat_def chatExists_eq case_prod_beta bool.case_eq_if)
qed

lemma removeChat_demo_main:
  "fst (removeChat 1 (QStr ''Bob'') demo_main) \<and>
   \<not> fst (removeChat 1 (QStr ''Bob'') (demo_main\<lparr>foreign_keys := True\<rparr>))"
  by code_simp

subsection \<open>The two list queries\<close>

lemma getChatUsers_loop_Row:
  "n < length rs \<Longrightarrow>
   getChatUsers_loop \<lparr>qrows = rs, qpos = Row n\<rparr> acc = acc @ drop (Suc n) rs"
proof (induction "length rs - n" arbitrary: n acc)
  case 0
  then show ?case by simp
next
  case (Suc k)
  show ?case
  proof (cases "Suc n < length rs")
    case True
    with Suc have "getChatUsers_loop \<lparr>qrows = rs, qpos = Row (Suc n)\<rparr> (acc @ [rs ! Suc n])
      = (acc @ [rs ! Suc n]) @ drop (Suc (Suc n)) rs"
      by (intro Suc.hyps) auto
    with True show ?thesis
      by (subst getChatUsers_loop.simps)
        (simp add: query_next_def query_value_def toString_text_def Cons_nth_drop_Suc)
  next
    case False
    then show ?thesis
      by (subst getChatUsers_loop.simps) (simp add: query_next_def)
  qed
qed

lemma getChatUsers_loop_fresh:
  "getChatUsers_loop \<lparr>qrows = rs, qpos = BeforeFirstRow\<rparr> acc = acc @ rs"
proof (cases rs)
  case Nil
  then show ?thesis
    by (subst getChatUsers_loop.simps) (simp add: query_next_def)
next
  case (Cons r rs')
  then show ?thesis
    using getChatUsers_loop_Row [of 0 rs "acc @ [r]"]
    by (subst getChatUsers_loop.simps)
      (simp add: query_next_def query_value_def toString_text_def)
qed

lemma getChatUsers_eq:
  "getChatUsers c d =
     (if fst (exec d) \<and> c \<in> chatids d
      then (if fst (exec (snd (exec d))) then users_of c d else [], snd (exec (snd (exec d))))
      else ([], snd (exec d)))"
  by (simp add: getChatUsers_def chatExists_eq select_username_chatusers_def run_select_eq
      sqlSize_fresh getChatUsers_loop_fresh users_of_def bool.case_eq_if)

lemma getChatsUserIsIn_loop_Row:
  "n < length rs \<Longrightarrow>
   getChatsUserIsIn_loop \<lparr>qrows = rs, qpos = Row n\<rparr> acc = acc @ drop (Suc n) rs"
proof (induction "length rs - n" arbitrary: n acc)
  case 0
  then show ?case by simp
next
  case (Suc k)
  show ?case
  proof (cases "Suc n < length rs")
    case True
    with Suc have "getChatsUserIsIn_loop \<lparr>qrows = rs, qpos = Row (Suc n)\<rparr> (acc @ [rs ! Suc n])
      = (acc @ [rs ! Suc n]) @ drop (Suc (Suc n)) rs"
      by (intro Suc.hyps) auto
    with True show ?thesis
      by (subst getChatsUserIsIn_loop.simps)
        (simp add: query_next_def query_value_def toInt_def Cons_nth_drop_Suc)
  next
    case False
    then show ?thesis
      by (subst getChatsUserIsIn_loop.simps) (simp add: query_next_def)
  qed
qed

lemma getChatsUserIsIn_loop_fresh:
  "getChatsUserIsIn_loop \<lparr>qrows = rs, qpos = BeforeFirstRow\<rparr> acc = acc @ rs"
proof (cases rs)
  case Nil
  then show ?thesis
    by (subst getChatsUserIsIn_loop.simps) (simp add: query_next_def)
next
  case (Cons r rs')
  then show ?thesis
    using getChatsUserIsIn_loop_Row [of 0 rs "acc @ [r]"]
    by (subst getChatsUserIsIn_loop.simps)
      (simp add: query_next_def query_value_def toInt_def)
qed

lemma getChatsUserIsIn_eq:
  "getChatsUserIsIn u d =
     (if fst (exec d) \<and> u \<in> usernames d
      then (if fst (exec (snd (exec d))) then chats_of u d else [], snd (exec (snd (exec d))))
      else ([], snd (exec d)))"
  by (simp add: getChatsUserIsIn_def userExists_eq select_chatid_chatusers_def run_select_eq
      sqlSize_fresh getChatsUserIsIn_loop_fresh chats_of_def bool.case_eq_if)

subsection \<open>The primary key of \<open>chats\<close>\<close>

text \<open>
  Chat ids stay unique under the three operations that write, so the uniqueness assumed of
  \<open>chats\<close> above holds in every state they reach from the empty tables.
\<close>

lemma insert_chats_unique:
  "distinct (map fst (chats d)) \<Longrightarrow> distinct (map fst (chats (snd (insert_chats c u d))))"
  by (simp add: insert_chats_eq chatids_def)

lemma delete_chats_unique:
  "distinct (map fst (chats d)) \<Longrightarrow> distinct (map fst (chats (snd (delete_chats c d))))"
  by (simp add: delete_chats_eq distinct_map_filter)

lemma addChat_loop_chats [simp]: "chats (snd (addChat_loop c us i s d)) = chats d"
proof (induction c us i s d rule: addChat_loop.induct)
  case (1 c us i s d)
  show ?case
  proof (cases "i < length us")
    case True
    with "1.IH" [of "fst (insert_chatusers c (us ! i) d)" "snd (insert_chatusers c (us ! i) d)"]
      insert_chatusers_tables(2) [of c "us ! i" d]
    show ?thesis
      by (subst addChat_loop.simps)
        (cases "insert_chatusers c (us ! i) d", auto simp: bool.case_eq_if)
  next
    case False
    then show ?thesis
      by (subst addChat_loop.simps) simp
  qed
qed

lemma addUser_chats [simp]: "chats (snd (addUser u p d)) = chats d"
  by (simp add: addUser_def userExists_eq insert_userinfo_eq case_prod_beta bool.case_eq_if)

lemma addChat_unique:
  assumes "distinct (map fst (chats d))"
  shows "distinct (map fst (chats (snd (addChat c u us d))))"
  using assms insert_chats_unique [of "snd (exec (snd (exec d)))" c u]
  by (simp add: addChat_def chatExists_eq userExists_eq case_prod_beta bool.case_eq_if)

lemma removeChat_unique:
  assumes "distinct (map fst (chats d))"
  shows "distinct (map fst (chats (snd (removeChat c u d))))"
proof -
  have "chats (snd (getChatOwner c (snd (exec d)))) = chats d"
    by (simp add: getChatOwner_eq)
  then show ?thesis
    using assms delete_chats_unique [of "snd (getChatOwner c (snd (exec d)))" c]
    by (simp add: removeChat_def chatExists_eq case_prod_beta bool.case_eq_if)
qed

lemma empty_db_unique: "distinct (map fst (chats empty_db))"
  by (simp add: empty_db_def)

end
